theory Spec2Isabelle
  imports Complex_Main "HOL-Library.Log_Nat"
begin

section \<open>Python values\<close>

text \<open>
  The values that flow through \<^verbatim>\<open>pyflot/graph.py\<close>: JSON-like data, plus calendar dates.
  A \<^verbatim>\<open>dict\<close> is an association list in insertion order with string keys; Python reads
  it as a map, so only \<open>map_of\<close> and the set of keys of a dict carry meaning.
  A \<^verbatim>\<open>float\<close> is an IEEE 754 double: \<open>PFloat r\<close> is the finite double that denotes the
  rational \<open>r\<close> (the two zeros are one value), \<open>PInf\<close> is an infinity (\<open>True\<close> for the
  positive one) and \<open>PNaN\<close> is not-a-number. \<open>PInt\<close> is the type \<^verbatim>\<open>int\<close>, with exact
  arithmetic: where a result does not fit the machine word Python 2 gives a \<^verbatim>\<open>long\<close>,
  which behaves as the \<^verbatim>\<open>int\<close> of the same value in every operation modelled here. A
  \<^verbatim>\<open>long\<close> passed as the data of a series is not the type \<^verbatim>\<open>int\<close>, and that case is not
  modelled. \<open>pydate\<close> stands for \<^verbatim>\<open>datetime.date\<close> and its subclass
  \<^verbatim>\<open>datetime.datetime\<close>.
\<close>

datatype pydate = Date int int int | DateTime int int int int int int

datatype pyval =
    PNone
  | PBool bool
  | PInt int
  | PFloat rat
  | PStr string
  | PDate pydate
  | PList "pyval list"
  | PTuple "pyval list"
  | PDict "(string \<times> pyval) list"
  | PInf bool
  | PNaN

type_synonym dict = "(string \<times> pyval) list"

datatype error =
    MissingDataException
  | DuplicateLabelException
  | TypeError
  | ValueError
  | IndexError
  | KeyError
  | AttributeError
  | OverflowError
  | ZeroDivisionError

text \<open>\<^verbatim>\<open>d[k] = v\<close> on a dict: replace the value of an existing key, else append the key.\<close>

fun setitem :: "dict \<Rightarrow> string \<Rightarrow> pyval \<Rightarrow> dict" where
  "setitem [] k v = [(k, v)]"
| "setitem ((k', v') # d) k v =
     (if k' = k then (k, v) # d else (k', v') # setitem d k v)"

text \<open>\<^verbatim>\<open>d.update(u)\<close>: a shallow merge, key by key.\<close>

fun dict_update :: "dict \<Rightarrow> dict \<Rightarrow> dict" where
  "dict_update d [] = d"
| "dict_update d ((k, v) # u) = dict_update (setitem d k v) u"

text \<open>Truth value testing (\<^verbatim>\<open>not x\<close>, \<^verbatim>\<open>if x:\<close>).\<close>

fun truthy :: "pyval \<Rightarrow> bool" where
  "truthy PNone = False"
| "truthy (PBool b) = b"
| "truthy (PInt i) = (i \<noteq> 0)"
| "truthy (PFloat r) = (r \<noteq> 0)"
| "truthy (PStr s) = (s \<noteq> [])"
| "truthy (PDate d) = True"
| "truthy (PList xs) = (xs \<noteq> [])"
| "truthy (PTuple xs) = (xs \<noteq> [])"
| "truthy (PDict d) = (d \<noteq> [])"
| "truthy (PInf b) = True"
| "truthy PNaN = True"

text \<open>\<^verbatim>\<open>type(x) is int\<close>: exactly the type int; \<^verbatim>\<open>bool\<close> and \<^verbatim>\<open>float\<close> are other types.\<close>

fun type_is_int :: "pyval \<Rightarrow> bool" where
  "type_is_int (PInt i) = True"
| "type_is_int _ = False"

text \<open>\<^verbatim>\<open>x[0]\<close>.\<close>

fun getitem0 :: "pyval \<Rightarrow> error + pyval" where
  "getitem0 (PList xs) = (case xs of [] \<Rightarrow> Inl IndexError | x # _ \<Rightarrow> Inr x)"
| "getitem0 (PTuple xs) = (case xs of [] \<Rightarrow> Inl IndexError | x # _ \<Rightarrow> Inr x)"
| "getitem0 (PStr s) = (case s of [] \<Rightarrow> Inl IndexError | c # _ \<Rightarrow> Inr (PStr [c]))"
| "getitem0 (PDict d) = Inl KeyError"
| "getitem0 _ = Inl TypeError"

text \<open>The tuple unpacking of \<^verbatim>\<open>for ts, val in series\<close>: iterating a string gives its
  characters, iterating a dict its keys.\<close>

fun unpack2 :: "pyval \<Rightarrow> error + pyval \<times> pyval" where
  "unpack2 (PList xs) = (case xs of [a, b] \<Rightarrow> Inr (a, b) | _ \<Rightarrow> Inl ValueError)"
| "unpack2 (PTuple xs) = (case xs of [a, b] \<Rightarrow> Inr (a, b) | _ \<Rightarrow> Inl ValueError)"
| "unpack2 (PStr s) = (case s of [a, b] \<Rightarrow> Inr (PStr [a], PStr [b]) | _ \<Rightarrow> Inl ValueError)"
| "unpack2 (PDict d) =
     (case d of [a, b] \<Rightarrow> Inr (PStr (fst a), PStr (fst b)) | _ \<Rightarrow> Inl ValueError)"
| "unpack2 _ = Inl TypeError"

text \<open>\<^verbatim>\<open>int(f)\<close> on a float truncates towards zero.\<close>

definition py_int :: "rat \<Rightarrow> int" where
  "py_int r = (if 0 \<le> r then \<lfloor>r\<rfloor> else \<lceil>r\<rceil>)"

text \<open>
  \<^verbatim>\<open>int(time.mktime(ts.timetuple()) * 1000)\<close>. The platform's \<^verbatim>\<open>time.mktime\<close> composed
  with \<^verbatim>\<open>timetuple\<close> is the parameter \<open>mktime\<close>: seconds since the epoch in local time,
  or \<open>None\<close> where the platform raises OverflowError. A value without a
  \<^verbatim>\<open>timetuple\<close> method raises AttributeError.
\<close>

fun to_millis :: "(pydate \<Rightarrow> rat option) \<Rightarrow> pyval \<Rightarrow> error + pyval" where
  "to_millis mktime (PDate d) =
     (case mktime d of None \<Rightarrow> Inl OverflowError
      | Some s \<Rightarrow> Inr (PInt (py_int (s * 1000))))"
| "to_millis mktime _ = Inl AttributeError"

text \<open>The list comprehension of \<^verbatim>\<open>add_series\<close> (lines 149-150).\<close>

fun convert_series :: "(pydate \<Rightarrow> rat option) \<Rightarrow> pyval list \<Rightarrow> error + pyval list" where
  "convert_series mktime [] = Inr []"
| "convert_series mktime (p # ps) =
     (case unpack2 p of Inl e \<Rightarrow> Inl e
      | Inr (ts, val) \<Rightarrow>
         (case to_millis mktime ts of Inl e \<Rightarrow> Inl e
          | Inr ms \<Rightarrow>
             (case convert_series mktime ps of Inl e \<Rightarrow> Inl e
              | Inr r \<Rightarrow> Inr (PTuple [ms, val] # r))))"

text \<open>\<^verbatim>\<open>isinstance(x, date)\<close>.\<close>

fun is_date :: "pyval \<Rightarrow> bool" where
  "is_date (PDate d) = True"
| "is_date _ = False"

section \<open>The Flot object\<close>

record flot =
  flot_series :: "dict list"
  flot_options :: dict

definition LINE_TYPES :: "string list" where
  "LINE_TYPES = [''bars'', ''lines'', ''points'']"

text \<open>
  Lines 145-151 of \<^verbatim>\<open>add_series\<close>: the detection of a time series on the first point of
  a list, the conversion of every point, and the assignment
  \<^verbatim>\<open>self._options['xaxis'] = {'mode': 'time'}\<close>. The result is the series to store and the
  options after the block.
\<close>

definition detect_time ::
  "(pydate \<Rightarrow> rat option) \<Rightarrow> pyval \<Rightarrow> dict \<Rightarrow> error + pyval \<times> dict" where
  "detect_time mktime series opts =
     (case series of
        PList xs \<Rightarrow>
          (case xs of [] \<Rightarrow> Inl IndexError
           | x # _ \<Rightarrow>
              (case getitem0 x of Inl e \<Rightarrow> Inl e
               | Inr testatom \<Rightarrow>
                  if is_date testatom
                  then (case convert_series mktime xs of Inl e \<Rightarrow> Inl e
                        | Inr ys \<Rightarrow>
                            Inr (PList ys,
                                 setitem opts ''xaxis'' (PDict [(''mode'', PStr ''time'')])))
                  else Inr (series, opts)))
      | _ \<Rightarrow> Inr (series, opts))"

text \<open>\<^verbatim>\<open>[x.get('label', None) for x in self._series]\<close>.\<close>

definition labels :: "dict list \<Rightarrow> pyval list" where
  "labels ss = map (\<lambda>x. case map_of x ''label'' of None \<Rightarrow> PNone | Some v \<Rightarrow> v) ss"

text \<open>The loop over \<^verbatim>\<open>LINE_TYPES\<close> (lines 158-163); \<open>kwargs\<close> are the keyword arguments.\<close>

fun add_line_types :: "dict \<Rightarrow> dict \<Rightarrow> string list \<Rightarrow> dict" where
  "add_line_types kwargs new_series [] = new_series"
| "add_line_types kwargs new_series (line_type # rest) =
     add_line_types kwargs
       (case map_of kwargs line_type of
          None \<Rightarrow> new_series
        | Some (PDict h) \<Rightarrow> setitem new_series line_type (PDict h)
        | Some _ \<Rightarrow> setitem new_series line_type (PDict [(''show'', PBool True)]))
       rest"

text \<open>Lines 164-166: \<^verbatim>\<open>options\<close> is merged only when its type is dict.\<close>

fun add_options :: "dict \<Rightarrow> pyval \<Rightarrow> dict" where
  "add_options new_series (PDict opts) = dict_update new_series opts"
| "add_options new_series _ = new_series"

text \<open>
  \<^verbatim>\<open>Flot.add_series(series, label=None, options=None, **kwargs)\<close>. The label is
  \<^verbatim>\<open>None\<close> or a string; \<open>options\<close> is any value, \<open>PNone\<close> being the default. The result
  is the exception raised, if any, and the object as the call leaves it.
\<close>

definition add_series ::
  "(pydate \<Rightarrow> rat option) \<Rightarrow> flot \<Rightarrow> pyval \<Rightarrow> string option \<Rightarrow> pyval \<Rightarrow> dict
     \<Rightarrow> error option \<times> flot" where
  "add_series mktime self series label options kwargs =
     (if \<not> type_is_int series \<and> \<not> truthy series then (Some MissingDataException, self)
      else
        case detect_time mktime series (flot_options self) of
          Inl e \<Rightarrow> (Some e, self)
        | Inr (series', opts') \<Rightarrow>
            let self' = self\<lparr>flot_options := opts'\<rparr>;
                new_series = [(''data'', series')]
            in case label of
                 None \<Rightarrow>
                   (None, self'\<lparr>flot_series := flot_series self' @
                      [add_options (add_line_types kwargs new_series LINE_TYPES) options]\<rparr>)
               | Some l \<Rightarrow>
                   if l \<noteq> [] \<and> PStr l \<in> set (labels (flot_series self'))
                   then (Some DuplicateLabelException, self')
                   else
                     let new_series' =
                           (if l \<noteq> [] then setitem new_series ''label'' (PStr l)
                            else new_series)
                     in (None, self'\<lparr>flot_series := flot_series self' @
                          [add_options (add_line_types kwargs new_series' LINE_TYPES)
                             options]\<rparr>))"

text \<open>
  \<^verbatim>\<open>Flot.add_series_type(line_type, series, label=None, **kwargs)\<close>: the keyword
  arguments are accepted and not passed on.
\<close>

definition add_series_type ::
  "(pydate \<Rightarrow> rat option) \<Rightarrow> flot \<Rightarrow> string \<Rightarrow> pyval \<Rightarrow> string option \<Rightarrow> dict
     \<Rightarrow> error option \<times> flot" where
  "add_series_type mktime self line_type series label kwargs =
     add_series mktime self series label PNone [(line_type, PBool True)]"

text \<open>
  \<^verbatim>\<open>Flot.__getattr__(value)\<close>: the result is the line type bound by
  \<^verbatim>\<open>partial(self.add_series_type, value[4:])\<close>. For a name that starts with
  \<^verbatim>\<open>add_\<close>, \<^verbatim>\<open>value.split('_')[1]\<close> is the part of \<^verbatim>\<open>value[4:]\<close> before its first
  underscore.
\<close>

definition getattr_flot :: "string \<Rightarrow> error + string" where
  "getattr_flot value =
     (if take 4 value = ''add_'' \<and>
         takeWhile (\<lambda>c. c \<noteq> CHR ''_'') (drop 4 value) \<in> set LINE_TYPES
      then Inr (drop 4 value) else Inl AttributeError)"

text \<open>The call \<^verbatim>\<open>self.add_bars(series, label, **kwargs)\<close> and its like, by method name.\<close>

definition call_add ::
  "(pydate \<Rightarrow> rat option) \<Rightarrow> flot \<Rightarrow> string \<Rightarrow> pyval \<Rightarrow> string option \<Rightarrow> dict
     \<Rightarrow> error option \<times> flot" where
  "call_add mktime self name series label kwargs =
     (case getattr_flot name of
        Inl e \<Rightarrow> (Some e, self)
      | Inr line_type \<Rightarrow> add_series_type mktime self line_type series label kwargs)"

text \<open>
  The exception, if any, that lines 141-151 of \<^verbatim>\<open>add_series\<close> raise on the data, before
  the label is looked at.
\<close>

definition data_error :: "(pydate \<Rightarrow> rat option) \<Rightarrow> pyval \<Rightarrow> error option" where
  "data_error mktime series =
     (if \<not> type_is_int series \<and> \<not> truthy series then Some MissingDataException
      else case detect_time mktime series [] of Inl e \<Rightarrow> Some e | Inr _ \<Rightarrow> None)"

text \<open>A list whose first point has a date as its first component (lines 145-148).\<close>

definition time_series :: "pyval \<Rightarrow> bool" where
  "time_series series =
     (case series of
        PList (x # _) \<Rightarrow> (case getitem0 x of Inr testatom \<Rightarrow> is_date testatom | Inl _ \<Rightarrow> False)
      | _ \<Rightarrow> False)"

text \<open>
  A point \<^verbatim>\<open>(x, y)\<close> whose \<open>x\<close> is a date that the platform converts, and the point
  with \<open>x\<close> in whole milliseconds since the epoch and \<open>y\<close> as it is.
\<close>

definition date_point :: "(pydate \<Rightarrow> rat option) \<Rightarrow> pyval \<Rightarrow> bool" where
  "date_point mktime p =
     (case unpack2 p of
        Inr (PDate d, y) \<Rightarrow> mktime d \<noteq> None
      | _ \<Rightarrow> False)"

definition millis_point :: "(pydate \<Rightarrow> rat option) \<Rightarrow> pyval \<Rightarrow> pyval" where
  "millis_point mktime p =
     (case unpack2 p of
        Inr (PDate d, y) \<Rightarrow>
          (case mktime d of Some s \<Rightarrow> PTuple [PInt (py_int (s * 1000)), y] | None \<Rightarrow> p)
      | _ \<Rightarrow> p)"

text \<open>A label that \<^verbatim>\<open>add_series\<close> accepts: none, the empty string, or one not in use.\<close>

definition label_free :: "flot \<Rightarrow> string option \<Rightarrow> bool" where
  "label_free self label =
     (case label of None \<Rightarrow> True
      | Some l \<Rightarrow> l = [] \<or> PStr l \<notin> set (labels (flot_series self)))"

text \<open>The data values that are sequences or mappings and hold nothing.\<close>

definition empty_nonscalar :: "pyval \<Rightarrow> bool" where
  "empty_nonscalar v = (v = PList [] \<or> v = PTuple [] \<or> v = PDict [] \<or> v = PStr [])"

text \<open>\<^verbatim>\<open>options\<close> is a dict that has the key \<open>k\<close>.\<close>

definition overrides :: "pyval \<Rightarrow> string \<Rightarrow> bool" where
  "overrides options k = (case options of PDict opts \<Rightarrow> map_of opts k \<noteq> None | _ \<Rightarrow> False)"

section \<open>Construction\<close>

text \<open>
  \<^verbatim>\<open>update(d, u)\<close>, the recursive update of nested dicts. \<open>u\<close> is a mapping, given by its
  items in the order of the loop. \<open>d\<close> is any value: the recursive call passes
  \<^verbatim>\<open>d.get(k, {})\<close>, which is whatever \<open>d\<close> holds under \<open>k\<close>. On a \<open>d\<close> that is not a dict,
  \<^verbatim>\<open>d.get\<close> raises AttributeError and \<^verbatim>\<open>d[k] = ...\<close> raises TypeError.
\<close>

function update :: "pyval \<Rightarrow> dict \<Rightarrow> error + pyval" where
  "update d [] = Inr d"
| "update d ((k, v) # u) =
     (case v of
        PDict vm \<Rightarrow>
          (case d of
             PDict dm \<Rightarrow>
               (case update (case map_of dm k of None \<Rightarrow> PDict [] | Some e \<Rightarrow> e) vm of
                  Inl e \<Rightarrow> Inl e
                | Inr r \<Rightarrow> update (PDict (setitem dm k r)) u)
           | _ \<Rightarrow> Inl AttributeError)
      | _ \<Rightarrow>
          (case d of
             PDict dm \<Rightarrow> update (PDict (setitem dm k v)) u
           | _ \<Rightarrow> Inl TypeError))"
  by pat_completeness auto
termination
  by (relation "measure (\<lambda>(d, u). size (PDict u))") auto

text \<open>
  \<^verbatim>\<open>Flot.__init__\<close>. \<open>layers\<close> are the \<^verbatim>\<open>options\<close> attributes of the classes of the
  reversed method resolution order that have one, the most general first. \<^verbatim>\<open>update\<close>
  returns the object it was given, here the dict \<^verbatim>\<open>self._options\<close>.
\<close>

fun apply_layers :: "pyval \<Rightarrow> dict list \<Rightarrow> error + pyval" where
  "apply_layers opts [] = Inr opts"
| "apply_layers opts (layer # layers) =
     (case update opts layer of Inl e \<Rightarrow> Inl e | Inr opts' \<Rightarrow> apply_layers opts' layers)"

definition flot_init :: "dict list \<Rightarrow> error + flot" where
  "flot_init layers =
     (case apply_layers (PDict []) layers of
        Inl e \<Rightarrow> Inl e
      | Inr (PDict opts) \<Rightarrow> Inr \<lparr>flot_series = [], flot_options = opts\<rparr>
      | Inr _ \<Rightarrow> Inl TypeError)"

section \<open>Serialization\<close>

text \<open>Sequencing of computations that may raise, and a comprehension over a list that
  stops at the first exception.\<close>

definition and_then :: "error + 'a \<Rightarrow> ('a \<Rightarrow> error + 'b) \<Rightarrow> error + 'b" where
  "and_then r f = (case r of Inl e \<Rightarrow> Inl e | Inr x \<Rightarrow> f x)"

fun py_map :: "('a \<Rightarrow> error + 'b) \<Rightarrow> 'a list \<Rightarrow> error + 'b list" where
  "py_map f [] = Inr []"
| "py_map f (x # xs) = and_then (f x) (\<lambda>y. and_then (py_map f xs) (\<lambda>ys. Inr (y # ys)))"

text \<open>\<^verbatim>\<open>d[k]\<close> on a dict, \<^verbatim>\<open>len(x)\<close>, and the items that iterating over \<open>x\<close> gives.\<close>

definition getitem :: "dict \<Rightarrow> string \<Rightarrow> error + pyval" where
  "getitem d k = (case map_of d k of None \<Rightarrow> Inl KeyError | Some v \<Rightarrow> Inr v)"

fun py_len :: "pyval \<Rightarrow> error + nat" where
  "py_len (PList xs) = Inr (length xs)"
| "py_len (PTuple xs) = Inr (length xs)"
| "py_len (PStr s) = Inr (length s)"
| "py_len (PDict d) = Inr (length d)"
| "py_len _ = Inl TypeError"

fun py_iter :: "pyval \<Rightarrow> error + pyval list" where
  "py_iter (PList xs) = Inr xs"
| "py_iter (PTuple xs) = Inr xs"
| "py_iter (PStr s) = Inr (map (\<lambda>c. PStr [c]) s)"
| "py_iter (PDict d) = Inr (map (\<lambda>kv. PStr (fst kv)) d)"
| "py_iter _ = Inl TypeError"

text \<open>
  The numbers: \<^verbatim>\<open>int\<close> and \<^verbatim>\<open>bool\<close> (a subclass of \<^verbatim>\<open>int\<close>), and \<^verbatim>\<open>float\<close>.
\<close>

datatype pyfloat = Finite rat | Inf bool | NaN

datatype pynum = NInt int | NFloat pyfloat

fun num_of :: "pyval \<Rightarrow> pynum option" where
  "num_of (PInt i) = Some (NInt i)"
| "num_of (PBool b) = Some (NInt (if b then 1 else 0))"
| "num_of (PFloat r) = Some (NFloat (Finite r))"
| "num_of (PInf b) = Some (NFloat (Inf b))"
| "num_of PNaN = Some (NFloat NaN)"
| "num_of _ = None"

fun float_val :: "pyfloat \<Rightarrow> pyval" where
  "float_val (Finite r) = PFloat r"
| "float_val (Inf b) = PInf b"
| "float_val NaN = PNaN"

text \<open>
  \<^verbatim>\<open>x < y\<close> on numbers. A comparison with not-a-number is false; an \<^verbatim>\<open>int\<close> and a
  \<^verbatim>\<open>float\<close> are compared by their exact values.
\<close>

fun fl_lt :: "pyfloat \<Rightarrow> pyfloat \<Rightarrow> bool" where
  "fl_lt NaN y = False"
| "fl_lt x NaN = False"
| "fl_lt (Inf a) (Inf b) = (\<not> a \<and> b)"
| "fl_lt (Inf a) (Finite s) = (\<not> a)"
| "fl_lt (Finite r) (Inf b) = b"
| "fl_lt (Finite r) (Finite s) = (r < s)"

fun num_lt :: "pynum \<Rightarrow> pynum \<Rightarrow> bool" where
  "num_lt (NInt i) (NInt j) = (i < j)"
| "num_lt (NInt i) (NFloat y) = fl_lt (Finite (of_int i)) y"
| "num_lt (NFloat x) (NInt j) = fl_lt x (Finite (of_int j))"
| "num_lt (NFloat x) (NFloat y) = fl_lt x y"

text \<open>
  Rounding to the nearest double, ties to even: the result of every float operation and of
  the conversion of an \<^verbatim>\<open>int\<close> is the exact result rounded so. A double has 53 significant
  bits and an exponent of at least \<open>-1022\<close>; below it the spacing stays \<open>2^-1074\<close>, so that
  small values round to zero. \<open>round_double\<close> is \<open>None\<close> where the rounded magnitude
  reaches \<open>2^1024\<close>, the overflow.
\<close>

definition pow2 :: "int \<Rightarrow> rat" where
  "pow2 e = (if 0 \<le> e then 2 ^ nat e else 1 / 2 ^ nat (- e))"

definition floor_log2 :: "rat \<Rightarrow> int" where
  "floor_log2 a =
     (let (p, q) = quotient_of a; e = bitlen p - bitlen q
      in if pow2 e \<le> a then e else e - 1)"

definition round_half_even :: "rat \<Rightarrow> int" where
  "round_half_even q =
     (let n = \<lfloor>q\<rfloor>; f = q - of_int n
      in if f < 1 / 2 then n else if 1 / 2 < f then n + 1 else if even n then n else n + 1)"

definition round_double :: "rat \<Rightarrow> rat option" where
  "round_double r =
     (if r = 0 then Some 0
      else
        let a = \<bar>r\<bar>;
            e = max (floor_log2 a) (- 1022);
            ulp = pow2 (e - 52);
            v = of_int (round_half_even (a / ulp)) * ulp
        in if pow2 1024 \<le> v then None else Some (if r < 0 then - v else v))"

text \<open>
  \<^verbatim>\<open>float(x)\<close> on a number raises OverflowError on an \<^verbatim>\<open>int\<close> that is too large. The
  operations on floats do not raise on overflow: they give an infinity.
\<close>

fun to_float :: "pynum \<Rightarrow> error + pyfloat" where
  "to_float (NInt i) =
     (case round_double (of_int i) of None \<Rightarrow> Inl OverflowError | Some r \<Rightarrow> Inr (Finite r))"
| "to_float (NFloat x) = Inr x"

definition fl_round :: "rat \<Rightarrow> pyfloat" where
  "fl_round r = (case round_double r of None \<Rightarrow> Inf (0 < r) | Some v \<Rightarrow> Finite v)"

fun fl_sub :: "pyfloat \<Rightarrow> pyfloat \<Rightarrow> pyfloat" where
  "fl_sub NaN y = NaN"
| "fl_sub x NaN = NaN"
| "fl_sub (Inf a) (Inf b) = (if a = b then NaN else Inf a)"
| "fl_sub (Inf a) (Finite s) = Inf a"
| "fl_sub (Finite r) (Inf b) = Inf (\<not> b)"
| "fl_sub (Finite r) (Finite s) = fl_round (r - s)"

text \<open>\<^verbatim>\<open>x / y\<close> on floats: a zero divisor raises ZeroDivisionError, whatever \<open>x\<close> is.\<close>

fun fl_div :: "pyfloat \<Rightarrow> pyfloat \<Rightarrow> error + pyfloat" where
  "fl_div x (Finite s) =
     (if s = 0 then Inl ZeroDivisionError
      else case x of
             Finite r \<Rightarrow> Inr (fl_round (r / s))
           | Inf a \<Rightarrow> Inr (Inf (a = (0 < s)))
           | NaN \<Rightarrow> Inr NaN)"
| "fl_div NaN (Inf b) = Inr NaN"
| "fl_div (Inf a) (Inf b) = Inr NaN"
| "fl_div (Finite r) (Inf b) = Inr (Finite 0)"
| "fl_div x NaN = Inr NaN"

text \<open>
  \<^verbatim>\<open>x - y\<close> on numbers: exact on two \<^verbatim>\<open>int\<close>s; otherwise the \<^verbatim>\<open>int\<close> operand, if any, is
  converted and the floats are subtracted.
\<close>

fun num_sub :: "pynum \<Rightarrow> pynum \<Rightarrow> error + pynum" where
  "num_sub (NInt i) (NInt j) = Inr (NInt (i - j))"
| "num_sub x y =
     and_then (to_float x) (\<lambda>fx. and_then (to_float y) (\<lambda>fy. Inr (NFloat (fl_sub fx fy))))"

text \<open>\<^verbatim>\<open>max\<close> of a list of lengths: ValueError on the empty list.\<close>

fun py_max_len :: "nat list \<Rightarrow> error + nat" where
  "py_max_len [] = Inl ValueError"
| "py_max_len (n # ns) = Inr (fold max ns n)"

text \<open>
  \<^verbatim>\<open>(min(xs), max(xs))\<close> as used by \<^verbatim>\<open>calculate_bar_width\<close>: ValueError on the empty
  list. \<^verbatim>\<open>min\<close> starts from the first item and takes a later item when it is less than the
  current one; \<^verbatim>\<open>max\<close> takes a later item when it is greater. Python 2 also orders values
  that are not numbers, in an arbitrary way, and every such list then fails with TypeError:
  in a comparison with a date, in the subtraction \<^verbatim>\<open>xmax - xmin\<close>, or in \<^verbatim>\<open>float(w)\<close>; the
  model raises the TypeError here.
\<close>

fun numbers :: "pyval list \<Rightarrow> pynum list option" where
  "numbers [] = Some []"
| "numbers (x # xs) =
     (case num_of x of None \<Rightarrow> None
      | Some r \<Rightarrow> (case numbers xs of None \<Rightarrow> None | Some rs \<Rightarrow> Some (r # rs)))"

definition py_min_max :: "pyval list \<Rightarrow> error + pynum \<times> pynum" where
  "py_min_max xs =
     (case xs of [] \<Rightarrow> Inl ValueError
      | _ # _ \<Rightarrow>
         (case numbers xs of None \<Rightarrow> Inl TypeError
          | Some ns \<Rightarrow>
              Inr (fold (\<lambda>y m. if num_lt y m then y else m) (tl ns) (hd ns),
                   fold (\<lambda>y m. if num_lt m y then y else m) (tl ns) (hd ns))))"

text \<open>
  Lines 191-192 of \<^verbatim>\<open>calculate_bar_width\<close>: \<^verbatim>\<open>w = xmax - xmin\<close> and \<^verbatim>\<open>float(w)/slices\<close>,
  where \<open>slices\<close> is an \<^verbatim>\<open>int\<close> that the division converts to a float.
\<close>

definition float_quotient :: "pynum \<Rightarrow> pynum \<Rightarrow> nat \<Rightarrow> error + pyval" where
  "float_quotient xmax xmin slices =
     and_then (num_sub xmax xmin)
      (\<lambda>w. and_then (to_float w)
      (\<lambda>fw. and_then (to_float (NInt (int slices)))
      (\<lambda>fs. and_then (fl_div fw fs)
      (\<lambda>q. Inr (float_val q)))))"

text \<open>\<^verbatim>\<open>Flot.calculate_bar_width()\<close>.\<close>

definition calculate_bar_width :: "flot \<Rightarrow> error + pyval" where
  "calculate_bar_width self =
     and_then (py_map (\<lambda>s. and_then (getitem s ''data'') py_len) (flot_series self))
      (\<lambda>lens. and_then (py_max_len lens)
      (\<lambda>slices. and_then (py_map (\<lambda>s. getitem s ''data'') (flot_series self))
      (\<lambda>datas. and_then (py_map (\<lambda>d. and_then (py_iter d) (py_map getitem0)) datas)
      (\<lambda>xss. and_then (py_min_max (concat xss))
      (\<lambda>(xmin, xmax). float_quotient xmax xmin slices)))))"

text \<open>
  \<^verbatim>\<open>Flot.prepare_series(series)\<close>. The assignment \<^verbatim>\<open>series['bars']['barWidth'] = w\<close>
  changes the stored hint; the result is the series after it.
\<close>

definition prepare_series :: "flot \<Rightarrow> dict \<Rightarrow> error + dict" where
  "prepare_series self series =
     (case map_of series ''bars'' of
        None \<Rightarrow> Inr series
      | Some bars \<Rightarrow>
          and_then (calculate_bar_width self)
            (\<lambda>w. if truthy w
                 then (case bars of
                         PDict b \<Rightarrow>
                           Inr (setitem series ''bars'' (PDict (setitem b ''barWidth'' w)))
                       | _ \<Rightarrow> Inl TypeError)
                 else Inr series))"

text \<open>
  The property \<^verbatim>\<open>Flot.series\<close>: \<^verbatim>\<open>[self.prepare_series(s) for s in self._series]\<close>.
  Each \<open>s\<close> is the stored entry itself, so what \<^verbatim>\<open>prepare_series\<close> assigns is written to
  the registry before the next entry is prepared. \<open>prepare_from self i n\<close> prepares the
  \<open>n\<close> entries from index \<open>i\<close> on. The view that the property returns is the list of the
  stored entries, as they are after the loop.
\<close>

fun prepare_from :: "flot \<Rightarrow> nat \<Rightarrow> nat \<Rightarrow> error option \<times> flot" where
  "prepare_from self i 0 = (None, self)"
| "prepare_from self i (Suc n) =
     (case prepare_series self (flot_series self ! i) of
        Inl e \<Rightarrow> (Some e, self)
      | Inr s \<Rightarrow> prepare_from (self\<lparr>flot_series := (flot_series self)[i := s]\<rparr>) (Suc i) n)"

definition series_property :: "flot \<Rightarrow> (error + dict list) \<times> flot" where
  "series_property self =
     (case prepare_from self 0 (length (flot_series self)) of
        (None, self') \<Rightarrow> (Inr (flot_series self'), self')
      | (Some e, self') \<Rightarrow> (Inl e, self'))"

section \<open>Notions of the specification\<close>

text \<open>
  The data points of a stored series whose data are a list or a tuple, the \<open>x\<close> of a
  point when it is an \<^verbatim>\<open>int\<close> or a finite \<^verbatim>\<open>float\<close>, and a series ``with sequence data'':
  its data are a list or a tuple of points that each start with such a number.
\<close>

definition data_points :: "dict \<Rightarrow> pyval list" where
  "data_points s =
     (case map_of s ''data'' of Some (PList ps) \<Rightarrow> ps | Some (PTuple ps) \<Rightarrow> ps | _ \<Rightarrow> [])"

definition x_num :: "pyval \<Rightarrow> pynum option" where
  "x_num p =
     (case getitem0 p of
        Inr x \<Rightarrow>
          (case num_of x of
             Some (NInt i) \<Rightarrow> Some (NInt i)
           | Some (NFloat (Finite r)) \<Rightarrow> Some (NFloat (Finite r))
           | _ \<Rightarrow> None)
      | Inl _ \<Rightarrow> None)"

fun num_val :: "pynum \<Rightarrow> rat" where
  "num_val (NInt i) = of_int i"
| "num_val (NFloat (Finite r)) = r"
| "num_val (NFloat _) = 0"

text \<open>An \<^verbatim>\<open>int\<close> or a finite \<^verbatim>\<open>float\<close>.\<close>

fun is_finite :: "pynum \<Rightarrow> bool" where
  "is_finite (NInt i) = True"
| "is_finite (NFloat (Finite r)) = True"
| "is_finite (NFloat _) = False"

definition sequence_data :: "dict \<Rightarrow> bool" where
  "sequence_data s =
     (case map_of s ''data'' of
        Some (PList ps) \<Rightarrow> list_all (\<lambda>p. x_num p \<noteq> None) ps
      | Some (PTuple ps) \<Rightarrow> list_all (\<lambda>p. x_num p \<noteq> None) ps
      | _ \<Rightarrow> False)"

text \<open>The render hint for bars, where there is one, is a mapping.\<close>

definition bars_hint_ok :: "dict \<Rightarrow> bool" where
  "bars_hint_ok s = (case map_of s ''bars'' of None \<Rightarrow> True | Some (PDict b) \<Rightarrow> True | Some _ \<Rightarrow> False)"

text \<open>
  The bar width in the words of the specification: \<open>slices\<close> is the maximum number of
  data points over all series; the \<open>x\<close> of all data points of all series are collected;
  \<open>xmin\<close> and \<open>xmax\<close> are the least and the greatest of them (the first such one in the
  list, which fixes whether it is an \<^verbatim>\<open>int\<close> or a \<^verbatim>\<open>float\<close>); and the width is
  \<open>(xmax - xmin) / slices\<close> as a floating-point value. \<open>x_values\<close> are the collected
  \<open>x\<close> as rationals. \<open>with_bar_width\<close> is the series with a width under
  \<^verbatim>\<open>bars.barWidth\<close>.
\<close>

definition x_nums :: "flot \<Rightarrow> pynum list" where
  "x_nums self = List.map_filter x_num (concat (map data_points (flot_series self)))"

definition x_values :: "flot \<Rightarrow> rat list" where
  "x_values self = map num_val (x_nums self)"

definition spec_bar_width :: "flot \<Rightarrow> error + pyval" where
  "spec_bar_width self =
     float_quotient
       (arg_min_list (\<lambda>x. - num_val x) (x_nums self))
       (arg_min_list num_val (x_nums self))
       (Max (set (map (\<lambda>s. length (data_points s)) (flot_series self))))"

definition with_bar_width :: "pyval \<Rightarrow> dict \<Rightarrow> dict" where
  "with_bar_width w s =
     (case map_of s ''bars'' of
        Some (PDict b) \<Rightarrow> setitem s ''bars'' (PDict (setitem b ''barWidth'' w))
      | _ \<Rightarrow> s)"

text \<open>A point \<^verbatim>\<open>(x, y)\<close> of two numbers.\<close>

definition numeric_pair :: "pyval \<Rightarrow> bool" where
  "numeric_pair p =
     (case unpack2 p of Inr (x, y) \<Rightarrow> num_of x \<noteq> None \<and> num_of y \<noteq> None | Inl _ \<Rightarrow> False)"

text \<open>
  The deep merge in the words of the specification: for each key, when the existing and the
  incoming value are both mappings they are merged recursively; otherwise the incoming value
  replaces the existing one. The resolved options are the fold of this merge over the
  sources, from the empty mapping.
\<close>

function spec_merge :: "dict \<Rightarrow> dict \<Rightarrow> dict" where
  "spec_merge acc [] = acc"
| "spec_merge acc ((k, v) # u) =
     spec_merge
       (setitem acc k
          (case v of
             PDict incoming \<Rightarrow>
               (case map_of acc k of
                  Some (PDict existing) \<Rightarrow> PDict (spec_merge existing incoming)
                | _ \<Rightarrow> v)
           | _ \<Rightarrow> v))
       u"
  by pat_completeness auto
termination
  by (relation "measure (\<lambda>(d, u). size (PDict u))") auto

definition spec_resolve :: "dict list \<Rightarrow> dict" where
  "spec_resolve layers = foldl spec_merge [] layers"

text \<open>
  A mapping whose keys are distinct, at every depth of nested mappings; and sources in
  which no mapping is given for a key that already holds a value that is not a mapping.
\<close>

fun wf_dict :: "pyval \<Rightarrow> bool" where
  "wf_dict (PDict d) = (distinct (map fst d) \<and> (\<forall>kv \<in> set d. wf_dict (snd kv)))"
| "wf_dict _ = True"

function no_clash :: "dict \<Rightarrow> dict \<Rightarrow> bool" where
  "no_clash acc [] = True"
| "no_clash acc ((k, v) # u) =
     ((case v of
         PDict incoming \<Rightarrow>
           (case map_of acc k of
              None \<Rightarrow> True
            | Some (PDict existing) \<Rightarrow> no_clash existing incoming
            | Some _ \<Rightarrow> False)
       | _ \<Rightarrow> True) \<and>
      no_clash (spec_merge acc [(k, v)]) u)"
  by pat_completeness auto
termination
  by (relation "measure (\<lambda>(d, u). size (PDict u))") auto

fun no_clash_layers :: "dict \<Rightarrow> dict list \<Rightarrow> bool" where
  "no_clash_layers acc [] = True"
| "no_clash_layers acc (layer # layers) =
     (wf_dict (PDict layer) \<and> no_clash acc layer \<and>
      no_clash_layers (spec_merge acc layer) layers)"

section \<open>Properties\<close>

subsection \<open>Dictionaries\<close>

lemma map_of_setitem:
  "map_of (setitem d k v) k' = (if k' = k then Some v else map_of d k')"
  by (induction d) auto

lemma map_of_dict_update_other:
  "map_of u k = None \<Longrightarrow> map_of (dict_update d u) k = map_of d k"
  by (induction d u rule: dict_update.induct) (auto simp: map_of_setitem split: if_splits)

lemma map_of_dict_update_key:
  "distinct (map fst u) \<Longrightarrow> map_of u k = Some v \<Longrightarrow> map_of (dict_update d u) k = Some v"
proof (induction d u rule: dict_update.induct)
  case (1 d)
  then show ?case by simp
next
  case (2 d k' v' u)
  show ?case
  proof (cases "k' = k")
    case True
    with 2 have "map_of u k = None" and "v' = v"
      by (auto simp: map_of_eq_None_iff)
    then show ?thesis using True
      by (simp add: map_of_dict_update_other map_of_setitem)
  next
    case False
    with 2 show ?thesis by simp
  qed
qed

lemma map_of_add_line_types:
  "k \<notin> set ts \<Longrightarrow> map_of (add_line_types kwargs new ts) k = map_of new k"
  by (induction kwargs new ts rule: add_line_types.induct)
     (auto simp: map_of_setitem split: option.splits pyval.splits)

lemma map_of_add_options:
  "\<not> overrides options k \<Longrightarrow> map_of (add_options new options) k = map_of new k"
  by (cases options) (auto simp: overrides_def map_of_dict_update_other)

subsection \<open>The data checks of \<^verbatim>\<open>add_series\<close>\<close>

lemma getitem0_error:
  "getitem0 x = Inl e \<Longrightarrow> e \<in> {IndexError, KeyError, TypeError}"
  by (cases x) (auto split: list.splits)

lemma unpack2_error:
  "unpack2 x = Inl e \<Longrightarrow> e \<in> {ValueError, TypeError}"
  by (cases x) (auto split: list.splits)

lemma to_millis_error:
  "to_millis mktime x = Inl e \<Longrightarrow> e \<in> {OverflowError, AttributeError}"
  by (cases x) (auto split: option.splits)

lemma convert_series_error:
  "convert_series mktime xs = Inl e \<Longrightarrow>
     e \<in> {ValueError, TypeError, OverflowError, AttributeError}"
proof (induction xs)
  case Nil
  then show ?case by simp
next
  case (Cons p ps)
  then show ?case
    by (auto split: sum.splits prod.splits dest: unpack2_error to_millis_error)
qed

lemma detect_time_error:
  "detect_time mktime series opts = Inl e \<Longrightarrow>
     e \<noteq> MissingDataException \<and> e \<noteq> DuplicateLabelException"
  by (auto simp: detect_time_def simp del: convert_series.simps
      split: pyval.splits list.splits sum.splits if_splits
      dest: getitem0_error convert_series_error)

lemma detect_time_Inl_opts:
  "detect_time mktime series opts = Inl e \<longleftrightarrow> detect_time mktime series [] = Inl e"
  by (auto simp: detect_time_def simp del: convert_series.simps
      split: pyval.splits list.splits sum.splits)

lemma data_error_add_series:
  assumes "data_error mktime series = Some e"
  shows "add_series mktime self series label options kwargs = (Some e, self)"
proof (cases "\<not> type_is_int series \<and> \<not> truthy series")
  case True
  with assms show ?thesis by (auto simp: data_error_def add_series_def)
next
  case False
  with assms have "detect_time mktime series [] = Inl e"
    by (auto simp: data_error_def split: sum.splits)
  then have "detect_time mktime series (flot_options self) = Inl e"
    by (simp add: detect_time_Inl_opts [of mktime series "flot_options self"])
  with False show ?thesis by (auto simp: add_series_def)
qed

lemma data_error_None:
  "data_error mktime series = None \<Longrightarrow>
     (type_is_int series \<or> truthy series) \<and>
     (\<exists>s' o'. detect_time mktime series opts = Inr (s', o'))"
  using detect_time_Inl_opts [of mktime series opts]
  by (cases "detect_time mktime series opts")
     (auto simp: data_error_def split: if_splits sum.splits)

lemma convert_series_date_points:
  "\<forall>p \<in> set xs. date_point mktime p \<Longrightarrow>
     convert_series mktime xs = Inr (map (millis_point mktime) xs)"
proof (induction xs)
  case Nil
  then show ?case by simp
next
  case (Cons p ps)
  from Cons.prems have "date_point mktime p" by simp
  then obtain d y s where "unpack2 p = Inr (PDate d, y)" and "mktime d = Some s"
    by (auto simp: date_point_def split: sum.splits prod.splits pyval.splits)
  with Cons show ?case by (simp add: millis_point_def)
qed

lemma date_point_getitem0:
  "date_point mktime p \<Longrightarrow> \<exists>t. getitem0 p = Inr t \<and> is_date t"
  by (cases p) (auto simp: date_point_def split: list.splits sum.splits pyval.splits)

lemma detect_time_date_points:
  assumes "xs \<noteq> []" and "\<forall>p \<in> set xs. date_point mktime p"
  shows "detect_time mktime (PList xs) opts =
           Inr (PList (map (millis_point mktime) xs),
                setitem opts ''xaxis'' (PDict [(''mode'', PStr ''time'')]))"
proof -
  from assms obtain x xs' where xs: "xs = x # xs'" by (cases xs) auto
  with assms have "date_point mktime x" by simp
  then obtain t where "getitem0 x = Inr t" and "is_date t"
    using date_point_getitem0 by blast
  moreover have "convert_series mktime (x # xs') = Inr (map (millis_point mktime) (x # xs'))"
    using assms(2) xs convert_series_date_points by blast
  ultimately show ?thesis
    by (simp add: detect_time_def xs del: convert_series.simps)
qed

lemma LINE_TYPES_not_data: "''data'' \<notin> set LINE_TYPES"
  by (simp add: LINE_TYPES_def)

lemma add_series_accepted:
  assumes "type_is_int series \<or> truthy series"
    and "detect_time mktime series (flot_options self) = Inr (s', o')"
    and "label_free self label"
  shows "add_series mktime self series label options kwargs =
    (None, self\<lparr>flot_options := o', flot_series := flot_series self @
       [add_options (add_line_types kwargs
          (case label of None \<Rightarrow> [(''data'', s')]
           | Some l \<Rightarrow> if l \<noteq> [] then [(''data'', s'), (''label'', PStr l)]
                       else [(''data'', s')]) LINE_TYPES) options]\<rparr>)"
  using assms
  by (auto simp: add_series_def label_free_def Let_def split: option.splits)

lemma time_series_cases:
  "time_series series \<Longrightarrow> \<exists>x xs t. series = PList (x # xs) \<and> getitem0 x = Inr t \<and> is_date t"
  by (auto simp: time_series_def split: pyval.splits list.splits sum.splits)

lemma detect_time_time_series:
  assumes "time_series (PList xs)"
  shows "detect_time mktime (PList xs) opts =
     (case convert_series mktime xs of Inl e \<Rightarrow> Inl e
      | Inr ys \<Rightarrow> Inr (PList ys, setitem opts ''xaxis'' (PDict [(''mode'', PStr ''time'')])))"
  using time_series_cases [OF assms]
  by (auto simp: detect_time_def simp del: convert_series.simps split: sum.splits)

subsection \<open>Missing data\<close>

text \<open>
  C8. In every state of the object, and whatever the label, the options and the keyword
  arguments, \<^verbatim>\<open>add_series\<close> on an empty non-scalar value raises MissingDataException and
  leaves the object, hence its series registry, as it was.
\<close>

theorem add_series_empty_raises:
  assumes "empty_nonscalar series"
  shows "add_series mktime self series label options kwargs = (Some MissingDataException, self)"
  using assms by (auto simp: empty_nonscalar_def add_series_def)

theorem add_series_empty_raises_witness:
  "empty_nonscalar (PList []) \<and>
   add_series (\<lambda>d. None) \<lparr>flot_series = [[(''data'', PInt 1)]], flot_options = []\<rparr>
     (PList []) (Some ''a'') PNone [] =
   (Some MissingDataException, \<lparr>flot_series = [[(''data'', PInt 1)]], flot_options = []\<rparr>)"
proof -
  have h: "empty_nonscalar (PList [])" by (simp add: empty_nonscalar_def)
  show ?thesis using h add_series_empty_raises [OF h] by simp
qed

text \<open>
  C6 (as the code has it). \<^verbatim>\<open>add_series\<close> raises MissingDataException exactly when the
  type of the data is not \<^verbatim>\<open>int\<close> and the data is falsy. So an \<^verbatim>\<open>int\<close>, zero included,
  never raises it; an empty sequence or mapping does; and so do the falsy values of every
  other type: the float zero, \<^verbatim>\<open>False\<close>, \<^verbatim>\<open>None\<close>.
\<close>

theorem add_series_missing_data_iff:
  "fst (add_series mktime self series label options kwargs) = Some MissingDataException
     \<longleftrightarrow> \<not> type_is_int series \<and> \<not> truthy series"
  by (auto simp: add_series_def Let_def split: sum.splits prod.splits option.splits
      dest: detect_time_error)

theorem add_series_missing_data_iff_witness:
  "fst (add_series (\<lambda>d. None) \<lparr>flot_series = [], flot_options = []\<rparr> (PInt 0) None PNone [])
     \<noteq> Some MissingDataException"
  using add_series_missing_data_iff
    [of "\<lambda>d. None" "\<lparr>flot_series = [], flot_options = []\<rparr>" "PInt 0" None PNone "[]"]
  by simp

text \<open>The claim as stated fails on the scalar \<^verbatim>\<open>0.0\<close>: MissingDataException is raised.\<close>

theorem add_series_float_zero_raises:
  "fst (add_series (\<lambda>d. None) \<lparr>flot_series = [], flot_options = []\<rparr> (PFloat 0) None PNone [])
     = Some MissingDataException"
  by (simp add: add_series_def)

subsection \<open>Duplicate labels\<close>

text \<open>
  C3 (as the code has it). When the label is a non-empty string that a stored series
  carries, \<^verbatim>\<open>add_series\<close> fails and leaves the series registry as it was, whatever the
  data. The exception is DuplicateLabelException when the data pass the checks that come
  first in the method; data that fail them raise their own exception instead
  (MissingDataException for empty data).
\<close>

theorem add_series_duplicate_label:
  assumes "l \<noteq> []" and "PStr l \<in> set (labels (flot_series self))"
  shows "fst (add_series mktime self series (Some l) options kwargs) =
           (case data_error mktime series of
              Some e \<Rightarrow> Some e | None \<Rightarrow> Some DuplicateLabelException) \<and>
         flot_series (snd (add_series mktime self series (Some l) options kwargs)) =
           flot_series self"
proof (cases "data_error mktime series")
  case (Some e)
  then show ?thesis by (simp add: data_error_add_series)
next
  case None
  from data_error_None [OF None, of "flot_options self"]
  obtain s' o' where ok: "type_is_int series \<or> truthy series"
    and dt: "detect_time mktime series (flot_options self) = Inr (s', o')"
    by blast
  from ok dt assms show ?thesis
    by (auto simp: None add_series_def)
qed

theorem add_series_duplicate_label_witness:
  "''a'' \<noteq> [] \<and>
   PStr ''a'' \<in> set (labels [[(''data'', PInt 1), (''label'', PStr ''a'')]]) \<and>
   fst (add_series (\<lambda>d. None)
          \<lparr>flot_series = [[(''data'', PInt 1), (''label'', PStr ''a'')]], flot_options = []\<rparr>
          (PInt 2) (Some ''a'') PNone []) = Some DuplicateLabelException"
proof -
  have h1: "''a'' \<noteq> []" by simp
  have h2: "PStr ''a'' \<in> set (labels (flot_series
     \<lparr>flot_series = [[(''data'', PInt 1), (''label'', PStr ''a'')]], flot_options = []\<rparr>))"
    by (simp add: labels_def)
  have d: "data_error (\<lambda>d. None) (PInt 2) = None"
    by (simp add: data_error_def detect_time_def)
  show ?thesis
    using h1 h2 add_series_duplicate_label [OF h1 h2, of "\<lambda>d. None" "PInt 2" PNone "[]"]
    by (simp add: d)
qed

text \<open>The claim as stated fails on empty data: the label is in use, and the exception is
  MissingDataException.\<close>

theorem add_series_duplicate_label_empty_data:
  "PStr ''a'' \<in> set (labels [[(''data'', PInt 1), (''label'', PStr ''a'')]]) \<and>
   fst (add_series (\<lambda>d. None)
          \<lparr>flot_series = [[(''data'', PInt 1), (''label'', PStr ''a'')]], flot_options = []\<rparr>
          (PList []) (Some ''a'') PNone []) = Some MissingDataException"
  by (simp add: labels_def add_series_def)

subsection \<open>Time series\<close>

text \<open>
  C4 (as the code has it). For a non-empty list of points \<^verbatim>\<open>(x, y)\<close> in which every
  \<open>x\<close> is a date that the platform converts, with a label that is free and extra options
  that do not carry the key \<^verbatim>\<open>data\<close>, \<^verbatim>\<open>add_series\<close> returns normally, appends one entry
  whose data are the points with \<open>x\<close> in truncated milliseconds and \<open>y\<close> as given, and
  leaves \<^verbatim>\<open>{'mode': 'time'}\<close> under the option \<^verbatim>\<open>xaxis\<close>.
\<close>

theorem add_series_time_series:
  assumes "xs \<noteq> []" and "\<forall>p \<in> set xs. date_point mktime p"
    and "label_free self label" and "\<not> overrides options ''data''"
  shows "\<exists>entry.
           fst (add_series mktime self (PList xs) label options kwargs) = None \<and>
           flot_series (snd (add_series mktime self (PList xs) label options kwargs)) =
             flot_series self @ [entry] \<and>
           map_of entry ''data'' = Some (PList (map (millis_point mktime) xs)) \<and>
           flot_options (snd (add_series mktime self (PList xs) label options kwargs)) =
             setitem (flot_options self) ''xaxis'' (PDict [(''mode'', PStr ''time'')])"
proof -
  have t: "type_is_int (PList xs) \<or> truthy (PList xs)"
    using assms(1) by simp
  show ?thesis
    using assms(4)
    by (simp add: add_series_accepted [OF t detect_time_date_points [OF assms(1,2)] assms(3)]
        map_of_add_options map_of_add_line_types LINE_TYPES_not_data split: option.splits)
qed

theorem add_series_time_series_witness:
  "[PTuple [PDate (Date 1970 1 2), PInt 1]] \<noteq> [] \<and>
   date_point (\<lambda>d. Some 86400) (PTuple [PDate (Date 1970 1 2), PInt 1]) \<and>
   map_of (last (flot_series (snd (add_series (\<lambda>d. Some 86400)
       \<lparr>flot_series = [], flot_options = []\<rparr>
       (PList [PTuple [PDate (Date 1970 1 2), PInt 1]]) None PNone [])))) ''data'' =
     Some (PList [PTuple [PInt 86400000, PInt 1]])"
proof -
  let ?xs = "[PTuple [PDate (Date 1970 1 2), PInt 1]]"
  let ?self = "\<lparr>flot_series = [], flot_options = []\<rparr>"
  have h1: "?xs \<noteq> []" by simp
  have dp: "date_point (\<lambda>d. Some 86400) (PTuple [PDate (Date 1970 1 2), PInt 1])"
    by (simp add: date_point_def)
  then have h2: "\<forall>p \<in> set ?xs. date_point (\<lambda>d. Some 86400) p" by simp
  have h3: "label_free ?self None" by (simp add: label_free_def)
  have h4: "\<not> overrides PNone ''data''" by (simp add: overrides_def)
  from add_series_time_series [OF h1 h2 h3 h4, of "[]"]
  show ?thesis using dp
    by (auto simp: millis_point_def py_int_def)
qed

text \<open>The claim as stated fails on a list whose first \<open>x\<close> is a date and whose second is
  a number: the conversion raises AttributeError and nothing is stored. A tuple of points is
  not converted at all.\<close>

theorem add_series_mixed_series_raises:
  "time_series (PList [PTuple [PDate (Date 1970 1 2), PInt 1], PTuple [PInt 5, PInt 2]]) \<and>
   add_series (\<lambda>d. Some 86400) \<lparr>flot_series = [], flot_options = []\<rparr>
     (PList [PTuple [PDate (Date 1970 1 2), PInt 1], PTuple [PInt 5, PInt 2]]) None PNone []
   = (Some AttributeError, \<lparr>flot_series = [], flot_options = []\<rparr>)"
  by (simp add: time_series_def add_series_def detect_time_def)

lemma add_series_tuple_not_converted:
  "add_series (\<lambda>d. Some 86400) \<lparr>flot_series = [], flot_options = []\<rparr>
     (PTuple [PTuple [PDate (Date 1970 1 2), PInt 1]]) None PNone []
   = (None, \<lparr>flot_series = [[(''data'', PTuple [PTuple [PDate (Date 1970 1 2), PInt 1]])]],
        flot_options = []\<rparr>)"
  by (simp add: add_series_def detect_time_def LINE_TYPES_def)

text \<open>
  C5 (as the code has it). Adding a series whose first \<open>x\<close> is a date changes the options
  at the key \<^verbatim>\<open>xaxis\<close> only, and only when the conversion of the points succeeds: the
  value of \<^verbatim>\<open>xaxis\<close> is then replaced by \<^verbatim>\<open>{'mode': 'time'}\<close> as a whole. Every other
  top-level key keeps its value.
\<close>

theorem add_series_time_options:
  assumes "time_series (PList xs)"
  shows "flot_options (snd (add_series mktime self (PList xs) label options kwargs)) =
           (case convert_series mktime xs of
              Inl e \<Rightarrow> flot_options self
            | Inr ys \<Rightarrow> setitem (flot_options self) ''xaxis'' (PDict [(''mode'', PStr ''time'')])) \<and>
         (\<forall>k. k \<noteq> ''xaxis'' \<longrightarrow>
            map_of (flot_options (snd (add_series mktime self (PList xs) label options kwargs))) k =
            map_of (flot_options self) k)"
proof -
  from time_series_cases [OF assms] have ne: "truthy (PList xs)" by auto
  have "flot_options (snd (add_series mktime self (PList xs) label options kwargs)) =
           (case convert_series mktime xs of
              Inl e \<Rightarrow> flot_options self
            | Inr ys \<Rightarrow> setitem (flot_options self) ''xaxis'' (PDict [(''mode'', PStr ''time'')]))"
    using ne
    by (auto simp: add_series_def Let_def detect_time_time_series [OF assms]
        simp del: convert_series.simps split: sum.splits option.splits)
  then show ?thesis
    by (auto simp: map_of_setitem split: sum.splits)
qed

theorem add_series_time_options_witness:
  "time_series (PList [PTuple [PDate (Date 1970 1 2), PInt 1]]) \<and>
   flot_options (snd (add_series (\<lambda>d. Some 86400)
       \<lparr>flot_series = [], flot_options = [(''grid'', PDict [(''show'', PBool True)])]\<rparr>
       (PList [PTuple [PDate (Date 1970 1 2), PInt 1]]) None PNone [])) =
     [(''grid'', PDict [(''show'', PBool True)]), (''xaxis'', PDict [(''mode'', PStr ''time'')])]"
proof -
  have h: "time_series (PList [PTuple [PDate (Date 1970 1 2), PInt 1]])"
    by (simp add: time_series_def)
  show ?thesis
    using h add_series_time_options [OF h, of "\<lambda>d. Some 86400"
      "\<lparr>flot_series = [], flot_options = [(''grid'', PDict [(''show'', PBool True)])]\<rparr>"
      None PNone "[]"]
    by simp
qed

text \<open>The claim as stated fails where \<^verbatim>\<open>xaxis\<close> already holds a key: \<^verbatim>\<open>xaxis.min\<close> is
  gone after the call.\<close>

theorem add_series_xaxis_replaced:
  "map_of [(''min'', PInt 0)] ''min'' = Some (PInt 0) \<and>
   flot_options (snd (add_series (\<lambda>d. Some 86400)
       \<lparr>flot_series = [], flot_options = [(''xaxis'', PDict [(''min'', PInt 0)])]\<rparr>
       (PList [PTuple [PDate (Date 1970 1 2), PInt 1]]) None PNone [])) =
     [(''xaxis'', PDict [(''mode'', PStr ''time'')])]"
  by (simp add: add_series_def detect_time_def LINE_TYPES_def)

subsection \<open>Extra options\<close>

lemma map_of_dict_update:
  "distinct (map fst u) \<Longrightarrow>
     map_of (dict_update d u) k = (case map_of u k of Some v \<Rightarrow> Some v | None \<Rightarrow> map_of d k)"
  by (cases "map_of u k") (simp_all add: map_of_dict_update_other map_of_dict_update_key)

lemma map_of_add_line_types_hint:
  "map_of (add_line_types kwargs new ts) t =
     (if t \<in> set ts
      then (case map_of kwargs t of
              None \<Rightarrow> map_of new t
            | Some (PDict h) \<Rightarrow> Some (PDict h)
            | Some _ \<Rightarrow> Some (PDict [(''show'', PBool True)]))
      else map_of new t)"
  by (induction kwargs new ts rule: add_line_types.induct)
     (auto simp: map_of_setitem split: option.splits pyval.splits)

lemma LINE_TYPES_not_label: "''label'' \<notin> set LINE_TYPES"
  by (simp add: LINE_TYPES_def)

text \<open>
  C10. When the data pass the checks and the label is free, the call returns normally and
  appends one entry. The entry is built from the data, the label and the hints, and the
  extra options are merged onto it last: with a dict as \<^verbatim>\<open>options\<close>, every key of the
  options, among them \<^verbatim>\<open>data\<close>, \<^verbatim>\<open>label\<close>, \<^verbatim>\<open>bars\<close>, \<^verbatim>\<open>lines\<close> and \<^verbatim>\<open>points\<close>,
  has in the stored entry the value that the options give it, and every other key has the
  value it has in the entry that the same call stores without options. That entry holds the
  normalized data under \<^verbatim>\<open>data\<close>, a non-empty label under \<^verbatim>\<open>label\<close>, and the hint of
  each line type among the keyword arguments. Extra options that are not a dict change
  nothing: the call is the call without them.
\<close>

theorem add_series_options_last:
  assumes "data_error mktime series = None" and "label_free self label"
  shows "fst (add_series mktime self series label options kwargs) = None \<and>
    butlast (flot_series (snd (add_series mktime self series label options kwargs))) =
      flot_series self \<and>
    (\<forall>opts. options = PDict opts \<longrightarrow> distinct (map fst opts) \<longrightarrow>
       (\<forall>k. map_of (last (flot_series
                (snd (add_series mktime self series label options kwargs)))) k =
            (case map_of opts k of
               Some v \<Rightarrow> Some v
             | None \<Rightarrow>
                 map_of (last (flot_series
                   (snd (add_series mktime self series label PNone kwargs)))) k))) \<and>
    ((\<forall>opts. options \<noteq> PDict opts) \<longrightarrow>
       add_series mktime self series label options kwargs =
       add_series mktime self series label PNone kwargs) \<and>
    (\<exists>s' o'. detect_time mktime series (flot_options self) = Inr (s', o') \<and>
       map_of (last (flot_series (snd (add_series mktime self series label PNone kwargs))))
         ''data'' = Some s') \<and>
    (\<forall>l. label = Some l \<longrightarrow> l \<noteq> [] \<longrightarrow>
       map_of (last (flot_series (snd (add_series mktime self series label PNone kwargs))))
         ''label'' = Some (PStr l)) \<and>
    (\<forall>t \<in> set LINE_TYPES.
       map_of (last (flot_series (snd (add_series mktime self series label PNone kwargs)))) t =
         (case map_of kwargs t of
            None \<Rightarrow> None
          | Some (PDict h) \<Rightarrow> Some (PDict h)
          | Some _ \<Rightarrow> Some (PDict [(''show'', PBool True)])))"
proof -
  from data_error_None [OF assms(1), of "flot_options self"]
  obtain s' o' where ok: "type_is_int series \<or> truthy series"
    and dt: "detect_time mktime series (flot_options self) = Inr (s', o')"
    by blast
  note acc = add_series_accepted [OF ok dt assms(2)]
  let ?new = "case label of None \<Rightarrow> [(''data'', s')]
           | Some l \<Rightarrow> if l \<noteq> [] then [(''data'', s'), (''label'', PStr l)]
                       else [(''data'', s')]"
  let ?base = "add_line_types kwargs ?new LINE_TYPES"
  have base: "last (flot_series (snd (add_series mktime self series label PNone kwargs))) = ?base"
    by (simp add: acc)
  have 1: "fst (add_series mktime self series label options kwargs) = None"
    by (simp add: acc)
  have 2: "butlast (flot_series (snd (add_series mktime self series label options kwargs))) =
      flot_series self"
    by (simp add: acc)
  have 3: "map_of (last (flot_series (snd (add_series mktime self series label options kwargs)))) k =
        (case map_of opts k of Some v \<Rightarrow> Some v | None \<Rightarrow>
           map_of (last (flot_series (snd (add_series mktime self series label PNone kwargs)))) k)"
    if "options = PDict opts" "distinct (map fst opts)" for opts k
    unfolding base using that by (simp add: acc map_of_dict_update)
  have 4: "add_series mktime self series label options kwargs =
       add_series mktime self series label PNone kwargs"
    if "\<forall>opts. options \<noteq> PDict opts"
    using that by (cases options) (simp_all add: acc)
  have 5: "map_of ?base ''data'' = Some s'"
    by (simp add: map_of_add_line_types LINE_TYPES_not_data split: option.splits)
  have 6: "map_of ?base ''label'' = Some (PStr l)" if "label = Some l" "l \<noteq> []" for l
    using that by (simp add: map_of_add_line_types LINE_TYPES_not_label)
  have 7: "map_of ?base t =
         (case map_of kwargs t of
            None \<Rightarrow> None
          | Some (PDict h) \<Rightarrow> Some (PDict h)
          | Some _ \<Rightarrow> Some (PDict [(''show'', PBool True)]))"
    if "t \<in> set LINE_TYPES" for t
  proof -
    from that have "map_of ?new t = None"
      by (auto simp: LINE_TYPES_def split: option.splits)
    with that show ?thesis
      by (simp add: map_of_add_line_types_hint split: option.splits pyval.splits)
  qed
  from 1 2 3 4 5 6 7 dt show ?thesis
    unfolding base by blast
qed

theorem add_series_options_last_witness:
  "data_error (\<lambda>d. None) (PList [PTuple [PInt 1, PInt 2]]) = None \<and>
   last (flot_series (snd (add_series (\<lambda>d. None)
      \<lparr>flot_series = [], flot_options = []\<rparr> (PList [PTuple [PInt 1, PInt 2]]) (Some ''a'')
      (PDict [(''color'', PStr ''red''), (''data'', PInt 7)]) [(''bars'', PBool True)]))) =
     [(''data'', PInt 7), (''label'', PStr ''a''), (''bars'', PDict [(''show'', PBool True)]),
      (''color'', PStr ''red'')] \<and>
   last (flot_series (snd (add_series (\<lambda>d. None)
      \<lparr>flot_series = [], flot_options = []\<rparr> (PList [PTuple [PInt 1, PInt 2]]) (Some ''a'')
      PNone [(''bars'', PBool True)]))) =
     [(''data'', PList [PTuple [PInt 1, PInt 2]]), (''label'', PStr ''a''),
      (''bars'', PDict [(''show'', PBool True)])]"
proof -
  have h1: "data_error (\<lambda>d. None) (PList [PTuple [PInt 1, PInt 2]]) = None"
    by (simp add: data_error_def detect_time_def)
  have h2: "label_free \<lparr>flot_series = [], flot_options = []\<rparr> (Some ''a'')"
    by (simp add: label_free_def labels_def)
  from add_series_options_last [OF h1 h2,
      of "PDict [(''color'', PStr ''red''), (''data'', PInt 7)]" "[(''bars'', PBool True)]"]
  have "fst (add_series (\<lambda>d. None) \<lparr>flot_series = [], flot_options = []\<rparr>
      (PList [PTuple [PInt 1, PInt 2]]) (Some ''a'')
      (PDict [(''color'', PStr ''red''), (''data'', PInt 7)]) [(''bars'', PBool True)]) = None"
    by blast
  then show ?thesis using h1
    by (simp add: add_series_def detect_time_def LINE_TYPES_def labels_def)
qed

subsection \<open>The shortcuts \<^verbatim>\<open>add_bars\<close>, \<^verbatim>\<open>add_lines\<close>, \<^verbatim>\<open>add_points\<close>\<close>

lemma getattr_flot_line_type:
  "t \<in> set LINE_TYPES \<Longrightarrow> getattr_flot (''add_'' @ t) = Inr t"
  by (auto simp: getattr_flot_def LINE_TYPES_def)

lemma add_line_types_show:
  "t \<in> set LINE_TYPES \<Longrightarrow>
   add_line_types [(t, PBool True)] new LINE_TYPES =
   add_line_types [(t, PDict [(''show'', PBool True)])] new LINE_TYPES"
  by (auto simp: LINE_TYPES_def)

text \<open>
  For each line type \<open>t\<close>, every data value, every label and any keyword arguments,
  \<^verbatim>\<open>add_t\<close> is \<^verbatim>\<open>add_series\<close> with the hint for \<open>t\<close> set to \<^verbatim>\<open>{'show': True}\<close> and no
  other hint or option: \<^verbatim>\<open>add_series_type\<close> accepts keyword arguments and does not pass
  them on.
\<close>

lemma add_line_type_forces_show:
  assumes "t \<in> set LINE_TYPES"
  shows "call_add mktime self (''add_'' @ t) series label kwargs =
         add_series mktime self series label PNone [(t, PDict [(''show'', PBool True)])]"
proof -
  have "call_add mktime self (''add_'' @ t) series label kwargs =
        add_series mktime self series label PNone [(t, PBool True)]"
    unfolding call_add_def getattr_flot_line_type [OF assms] add_series_type_def by simp
  also have "\<dots> = add_series mktime self series label PNone [(t, PDict [(''show'', PBool True)])]"
    unfolding add_series_def add_line_types_show [OF assms] by (rule refl)
  finally show ?thesis .
qed

lemma add_line_type_forces_show_example:
  "''bars'' \<in> set LINE_TYPES \<and>
   call_add (\<lambda>d. None) \<lparr>flot_series = [], flot_options = []\<rparr> ''add_bars'' (PInt 1) None
     [(''bars'', PDict [(''barWidth'', PInt 2)])] =
   (None, \<lparr>flot_series = [[(''data'', PInt 1), (''bars'', PDict [(''show'', PBool True)])]],
           flot_options = []\<rparr>)"
proof -
  have h: "''bars'' \<in> set LINE_TYPES" by (simp add: LINE_TYPES_def)
  from add_line_type_forces_show [OF h, of "\<lambda>d. None" "\<lparr>flot_series = [], flot_options = []\<rparr>"
    "PInt 1" None "[(''bars'', PDict [(''barWidth'', PInt 2)])]"]
  show ?thesis using h
    by (simp add: add_series_def detect_time_def LINE_TYPES_def)
qed

text \<open>
  C7 fails on the code where the caller supplies a mapping for \<open>t\<close>. The claim has the
  mapping stored verbatim, as \<^verbatim>\<open>add_series\<close> does with it; \<^verbatim>\<open>add_bars\<close> drops it and stores
  \<^verbatim>\<open>{'show': True}\<close>.
\<close>

theorem add_bars_drops_mapping:
  "map_of (last (flot_series (snd (call_add (\<lambda>d. None) \<lparr>flot_series = [], flot_options = []\<rparr>
      ''add_bars'' (PList [PTuple [PInt 1, PInt 2]]) None
      [(''bars'', PDict [(''barWidth'', PInt 2)])])))) ''bars''
   = Some (PDict [(''show'', PBool True)]) \<and>
   map_of (last (flot_series (snd (add_series (\<lambda>d. None) \<lparr>flot_series = [], flot_options = []\<rparr>
      (PList [PTuple [PInt 1, PInt 2]]) None PNone
      [(''bars'', PDict [(''barWidth'', PInt 2)])])))) ''bars''
   = Some (PDict [(''barWidth'', PInt 2)])"
  by (simp add: call_add_def getattr_flot_def add_series_type_def add_series_def
      detect_time_def LINE_TYPES_def)

subsection \<open>The serialized view\<close>

lemma and_then_Inr [simp]: "and_then (Inr x) f = f x"
  by (simp add: and_then_def)

lemma and_then_Inl [simp]: "and_then (Inl e) f = Inl e"
  by (simp add: and_then_def)

lemma py_map_map: "py_map (\<lambda>x. f (g x)) xs = py_map f (map g xs)"
  by (induction xs) simp_all

lemma py_map_Inr:
  "\<forall>x \<in> set xs. f x = Inr (g x) \<Longrightarrow> py_map f xs = Inr (map g xs)"
  by (induction xs) simp_all

lemma calculate_bar_width_data:
  assumes "map (\<lambda>s. map_of s ''data'') (flot_series a) = map (\<lambda>s. map_of s ''data'') (flot_series b)"
  shows "calculate_bar_width a = calculate_bar_width b"
proof -
  have 1: "py_map (\<lambda>s. and_then (getitem s ''data'') py_len) ss =
        py_map (\<lambda>d. and_then (case d of None \<Rightarrow> Inl KeyError | Some v \<Rightarrow> Inr v) py_len)
          (map (\<lambda>s. map_of s ''data'') ss)" for ss
    unfolding getitem_def by (rule py_map_map)
  have 2: "py_map (\<lambda>s. getitem s ''data'') ss =
        py_map (\<lambda>d. case d of None \<Rightarrow> Inl KeyError | Some v \<Rightarrow> Inr v)
          (map (\<lambda>s. map_of s ''data'') ss)" for ss
    unfolding getitem_def by (rule py_map_map)
  show ?thesis
    unfolding calculate_bar_width_def 1 2 assms ..
qed

lemma prepare_series_data:
  "prepare_series self s = Inr s' \<Longrightarrow> map_of s' ''data'' = map_of s ''data''"
  by (auto simp: prepare_series_def and_then_def map_of_setitem
      split: option.splits sum.splits if_splits pyval.splits)

lemma map_data_update:
  assumes "map_of s' ''data'' = map_of (ss ! i) ''data''"
  shows "map (\<lambda>s. map_of s ''data'') (ss[i := s']) = map (\<lambda>s. map_of s ''data'') ss"
proof (cases "i < length ss")
  case True
  then show ?thesis
    by (simp add: map_update assms list_update_same_conv)
next
  case False
  then show ?thesis by (simp add: list_update_beyond)
qed

lemma prepare_from_data:
  "prepare_from self i n = (r, self') \<Longrightarrow>
     map (\<lambda>s. map_of s ''data'') (flot_series self') = map (\<lambda>s. map_of s ''data'') (flot_series self)
     \<and> flot_options self' = flot_options self"
proof (induction n arbitrary: self i)
  case 0
  then show ?case by simp
next
  case (Suc n)
  show ?case
  proof (cases "prepare_series self (flot_series self ! i)")
    case (Inl e)
    with Suc.prems show ?thesis by simp
  next
    case (Inr s)
    let ?self = "self\<lparr>flot_series := (flot_series self)[i := s]\<rparr>"
    from Inr Suc.prems have "prepare_from ?self (Suc i) n = (r, self')" by simp
    from Suc.IH [OF this] map_data_update [OF prepare_series_data [OF Inr]]
    show ?thesis by simp
  qed
qed

lemma series_property_data:
  assumes "series_property self = (Inr view, self')"
  shows "map (\<lambda>s. map_of s ''data'') view = map (\<lambda>s. map_of s ''data'') (flot_series self)"
proof -
  obtain r m where p: "prepare_from self 0 (length (flot_series self)) = (r, m)"
    by (cases "prepare_from self 0 (length (flot_series self))")
  with assms have "view = flot_series m"
    by (auto simp: series_property_def split: option.splits)
  with prepare_from_data [OF p] show ?thesis by simp
qed

lemma prepare_from_no_bars:
  "\<forall>s \<in> set (flot_series self). map_of s ''bars'' = None \<Longrightarrow> i + n \<le> length (flot_series self)
     \<Longrightarrow> prepare_from self i n = (None, self)"
proof (induction n arbitrary: i)
  case 0
  then show ?case by simp
next
  case (Suc n)
  then have "i < length (flot_series self)" by simp
  with Suc.prems have "prepare_series self (flot_series self ! i) = Inr (flot_series self ! i)"
    by (simp add: prepare_series_def)
  moreover have "prepare_from self (Suc i) n = (None, self)"
    using Suc.IH [of "Suc i"] Suc.prems by simp
  ultimately show ?case by simp
qed

lemma series_property_no_bars:
  "\<forall>s \<in> set (flot_series self). map_of s ''bars'' = None \<Longrightarrow>
     series_property self = (Inr (flot_series self), self)"
  by (simp add: series_property_def prepare_from_no_bars)

lemma map_of_add_line_types_absent:
  "map_of kwargs k = None \<Longrightarrow> map_of (add_line_types kwargs new ts) k = map_of new k"
  by (induction kwargs new ts rule: add_line_types.induct)
     (auto simp: map_of_setitem split: option.splits pyval.splits)

lemma num_of_not_date: "num_of x = Some r \<Longrightarrow> \<not> is_date x"
  by (cases x) auto

lemma numeric_pair_getitem0:
  "numeric_pair p \<Longrightarrow> \<exists>x. getitem0 p = Inr x \<and> \<not> is_date x"
  by (cases p) (auto simp: numeric_pair_def split: list.splits sum.splits dest: num_of_not_date)

lemma detect_time_numeric:
  assumes "xs \<noteq> []" and "numeric_pair (hd xs)"
    and "series = PList xs \<or> series = PTuple xs"
  shows "detect_time mktime series opts = Inr (series, opts)"
proof -
  from assms(1) obtain x xs' where xs: "xs = x # xs'" by (cases xs) auto
  with assms(2) obtain t where "getitem0 x = Inr t" and "\<not> is_date t"
    using numeric_pair_getitem0 by auto
  with assms(3) show ?thesis
    by (auto simp: detect_time_def xs simp del: convert_series.simps)
qed

text \<open>
  C9 (as the code has it). Let a non-empty list or tuple of points \<^verbatim>\<open>(x, y)\<close> of numbers
  be added, with a label that is free and extra options that do not carry the key
  \<^verbatim>\<open>data\<close>. The call returns normally. When no stored series and no argument of the call
  carries a hint for bars, the property \<^verbatim>\<open>series\<close> then returns a view: the entries of the
  registry as they were, followed by an entry whose data are the sequence as given, the same
  points in the same order. With a hint for bars somewhere the property can raise; whenever
  it returns a view, the view has one more entry than the registry had and the data of its
  last entry are the sequence as given.
\<close>

theorem add_series_round_trip:
  assumes "xs \<noteq> []" and "\<forall>p \<in> set xs. numeric_pair p"
    and "label_free self label" and "\<not> overrides options ''data''"
    and "series = PList xs \<or> series = PTuple xs"
  shows "fst (add_series mktime self series label options kwargs) = None \<and>
    ((\<forall>s \<in> set (flot_series self). map_of s ''bars'' = None) \<and>
     map_of kwargs ''bars'' = None \<and> \<not> overrides options ''bars'' \<longrightarrow>
       (\<exists>view.
          fst (series_property (snd (add_series mktime self series label options kwargs))) =
            Inr view \<and>
          butlast view = flot_series self \<and>
          map_of (last view) ''data'' = Some series)) \<and>
    (\<forall>view self'.
       series_property (snd (add_series mktime self series label options kwargs)) =
         (Inr view, self') \<longrightarrow>
       length view = Suc (length (flot_series self)) \<and>
       map_of (last view) ''data'' = Some series)"
proof -
  let ?r = "add_series mktime self series label options kwargs"
  let ?entry = "add_options (add_line_types kwargs
          (case label of None \<Rightarrow> [(''data'', series)]
           | Some l \<Rightarrow> if l \<noteq> [] then [(''data'', series), (''label'', PStr l)]
                       else [(''data'', series)]) LINE_TYPES) options"
  have t: "type_is_int series \<or> truthy series" using assms(1,5) by auto
  have h: "numeric_pair (hd xs)" using assms(1,2) by simp
  note acc = add_series_accepted [OF t detect_time_numeric [OF assms(1) h assms(5)] assms(3)]
  have ok: "fst ?r = None" by (simp add: acc)
  have ss: "flot_series (snd ?r) = flot_series self @ [?entry]" by (simp add: acc)
  have d: "map_of ?entry ''data'' = Some series"
    using assms(4)
    by (simp add: map_of_add_options map_of_add_line_types LINE_TYPES_not_data
        split: option.splits)
  have part: "length view = Suc (length (flot_series self)) \<and>
      map_of (last view) ''data'' = Some series"
    if "series_property (snd ?r) = (Inr view, self')" for view self'
  proof -
    from series_property_data [OF that]
    have m: "map (\<lambda>s. map_of s ''data'') view =
        map (\<lambda>s. map_of s ''data'') (flot_series self @ [?entry])"
      by (simp only: ss)
    from arg_cong [OF m, of length] have l: "length view = Suc (length (flot_series self))"
      by simp
    then have ne: "view \<noteq> []" by auto
    from arg_cong [OF m, of last] ne have "map_of (last view) ''data'' = map_of ?entry ''data''"
      by (simp add: last_map)
    with l d show ?thesis by simp
  qed
  have tot: "\<exists>view. fst (series_property (snd ?r)) = Inr view \<and>
      butlast view = flot_series self \<and> map_of (last view) ''data'' = Some series"
    if nb: "\<forall>s \<in> set (flot_series self). map_of s ''bars'' = None"
      and kw: "map_of kwargs ''bars'' = None" and op: "\<not> overrides options ''bars''"
  proof -
    have "map_of ?entry ''bars'' = None"
      using op kw
      by (simp add: map_of_add_options map_of_add_line_types_absent split: option.splits)
    with nb have "\<forall>s \<in> set (flot_series (snd ?r)). map_of s ''bars'' = None"
      by (simp only: ss) auto
    from series_property_no_bars [OF this]
    have "fst (series_property (snd ?r)) = Inr (flot_series self @ [?entry])"
      by (simp only: ss) simp
    with d show ?thesis by simp
  qed
  from ok part tot show ?thesis by blast
qed

theorem add_series_round_trip_witness:
  "numeric_pair (PTuple [PInt 1, PInt 2]) \<and> numeric_pair (PTuple [PInt 3, PInt 4]) \<and>
   fst (series_property (snd (add_series (\<lambda>d. None) \<lparr>flot_series = [], flot_options = []\<rparr>
      (PList [PTuple [PInt 1, PInt 2], PTuple [PInt 3, PInt 4]]) None PNone []))) =
   Inr [[(''data'', PList [PTuple [PInt 1, PInt 2], PTuple [PInt 3, PInt 4]])]]"
proof -
  let ?xs = "[PTuple [PInt 1, PInt 2], PTuple [PInt 3, PInt 4]]"
  let ?self = "\<lparr>flot_series = [], flot_options = []\<rparr>"
  have p1: "numeric_pair (PTuple [PInt 1, PInt 2])"
    and p2: "numeric_pair (PTuple [PInt 3, PInt 4])"
    by (simp_all add: numeric_pair_def)
  have h1: "?xs \<noteq> []" by simp
  have h2: "\<forall>p \<in> set ?xs. numeric_pair p" using p1 p2 by simp
  have h3: "label_free ?self None" by (simp add: label_free_def)
  have h4: "\<not> overrides PNone ''data''" by (simp add: overrides_def)
  have e: "snd (add_series (\<lambda>d. None) ?self (PList ?xs) None PNone []) =
      \<lparr>flot_series = [[(''data'', PList ?xs)]], flot_options = []\<rparr>"
    by (simp add: add_series_def detect_time_def LINE_TYPES_def)
  have h5: "PList ?xs = PList ?xs \<or> PList ?xs = PTuple ?xs" by simp
  from add_series_round_trip [OF h1 h2 h3 h4 h5, of "\<lambda>d. None" "[]"]
  have "\<exists>view. fst (series_property (snd (add_series (\<lambda>d. None) ?self (PList ?xs) None PNone [])))
      = Inr view"
    by (simp add: overrides_def) blast
  with p1 p2 show ?thesis
    by (simp add: e series_property_def prepare_series_def)
qed

text \<open>
  The claim as stated fails in a model that holds a series with a hint for bars and data
  that are no sequence, as \<^verbatim>\<open>add_bars(5)\<close> leaves it: the list is added, and the property
  \<^verbatim>\<open>series\<close> raises TypeError on \<^verbatim>\<open>len(5)\<close>.
\<close>

theorem add_series_after_scalar_bars:
  "snd (call_add (\<lambda>d. None) \<lparr>flot_series = [], flot_options = []\<rparr> ''add_bars'' (PInt 5) None []) =
     \<lparr>flot_series = [[(''data'', PInt 5), (''bars'', PDict [(''show'', PBool True)])]],
      flot_options = []\<rparr> \<and>
   numeric_pair (PTuple [PInt 1, PInt 2]) \<and>
   add_series (\<lambda>d. None)
     \<lparr>flot_series = [[(''data'', PInt 5), (''bars'', PDict [(''show'', PBool True)])]],
      flot_options = []\<rparr>
     (PList [PTuple [PInt 1, PInt 2]]) None PNone [] =
   (None, \<lparr>flot_series = [[(''data'', PInt 5), (''bars'', PDict [(''show'', PBool True)])],
                          [(''data'', PList [PTuple [PInt 1, PInt 2]])]],
           flot_options = []\<rparr>) \<and>
   fst (series_property
     \<lparr>flot_series = [[(''data'', PInt 5), (''bars'', PDict [(''show'', PBool True)])],
                     [(''data'', PList [PTuple [PInt 1, PInt 2]])]],
      flot_options = []\<rparr>) = Inl TypeError"
  by (simp add: call_add_def getattr_flot_def add_series_type_def add_series_def
      detect_time_def LINE_TYPES_def numeric_pair_def series_property_def prepare_series_def
      calculate_bar_width_def getitem_def)

subsection \<open>The bar width\<close>

lemma arg_min_list_step:
  "arg_min_list f (n # y # ys) = arg_min_list f ((if f y < f n then y else n) # ys)"
  by (cases ys) (auto simp: Let_def)

lemma fold_pick:
  assumes "\<forall>x \<in> set (n # ns). \<forall>y \<in> set (n # ns). lt x y = (f x < f y)"
  shows "fold (\<lambda>y m. if lt y m then y else m) ns n = arg_min_list f (n # ns)"
  using assms
proof (induction ns arbitrary: n)
  case Nil
  then show ?case by simp
next
  case (Cons y ys)
  let ?n = "if f y < f n then y else n"
  from Cons.prems have lt: "lt y n = (f y < f n)" by simp
  have "fold (\<lambda>y m. if lt y m then y else m) (y # ys) n =
        fold (\<lambda>y m. if lt y m then y else m) ys ?n"
    by (simp add: lt)
  also have "\<dots> = arg_min_list f (?n # ys)"
    using Cons.prems by (intro Cons.IH) auto
  also have "\<dots> = arg_min_list f (n # y # ys)"
    by (rule arg_min_list_step [symmetric])
  finally show ?case .
qed

lemma num_lt_finite:
  "is_finite a \<Longrightarrow> is_finite b \<Longrightarrow> num_lt a b = (num_val a < num_val b)"
  by (cases a; cases b) (auto elim!: is_finite.elims)

lemma x_num_finite: "x_num p = Some n \<Longrightarrow> is_finite n"
  by (auto simp: x_num_def split: sum.splits option.splits pynum.splits pyfloat.splits)

lemma x_num_getitem0: "x_num p = Some n \<Longrightarrow> getitem0 p = Inr (projr (getitem0 p))"
  by (cases "getitem0 p") (auto simp: x_num_def)

lemma x_num_num_of: "x_num p = Some n \<Longrightarrow> num_of (projr (getitem0 p)) = Some n"
  by (cases "getitem0 p")
     (auto simp: x_num_def split: option.splits pynum.splits pyfloat.splits)

lemma py_map_first:
  "list_all (\<lambda>p. x_num p \<noteq> None) ps \<Longrightarrow>
     py_map getitem0 ps = Inr (map (\<lambda>p. projr (getitem0 p)) ps)"
  by (rule py_map_Inr) (auto simp: list_all_iff dest: x_num_getitem0)

lemma sequence_data_len:
  "sequence_data s \<Longrightarrow> and_then (getitem s ''data'') py_len = Inr (length (data_points s))"
  by (auto simp: sequence_data_def getitem_def data_points_def split: option.splits pyval.splits)

lemma sequence_data_getitem:
  "sequence_data s \<Longrightarrow> getitem s ''data'' = Inr (projr (getitem s ''data''))"
  by (auto simp: sequence_data_def getitem_def split: option.splits)

lemma sequence_data_firsts:
  "sequence_data s \<Longrightarrow>
     and_then (py_iter (projr (getitem s ''data''))) (py_map getitem0) =
       Inr (map (\<lambda>p. projr (getitem0 p)) (data_points s))"
  by (auto simp: sequence_data_def getitem_def data_points_def py_map_first
      split: option.splits pyval.splits)

lemma numbers_firsts:
  "list_all (\<lambda>p. x_num p \<noteq> None) ps \<Longrightarrow>
     numbers (map (\<lambda>p. projr (getitem0 p)) ps) = Some (List.map_filter x_num ps)"
proof (induction ps)
  case Nil
  then show ?case by simp
next
  case (Cons p ps)
  then obtain r where r: "x_num p = Some r" by auto
  with Cons x_num_num_of [OF r] show ?case
    by simp
qed

lemma map_filter_finite:
  "n \<in> set (List.map_filter x_num ps) \<Longrightarrow> is_finite n"
  by (auto simp: List.map_filter_def dest: x_num_finite)

lemma sequence_data_points:
  "sequence_data s \<Longrightarrow> list_all (\<lambda>p. x_num p \<noteq> None) (data_points s)"
  by (auto simp: sequence_data_def data_points_def split: option.splits pyval.splits)

lemma fold_max_Max: "fold max ns (n::nat) = Max (set (n # ns))"
  by (rule Max.set_eq_fold [symmetric])

lemma py_max_len_Max: "ns \<noteq> [] \<Longrightarrow> py_max_len ns = Inr (Max (set ns))"
  by (cases ns) (simp_all only: py_max_len.simps fold_max_Max, simp)

lemma py_min_max_numbers:
  assumes "xs \<noteq> []" and "numbers xs = Some ns" and "\<forall>n \<in> set ns. is_finite n"
  shows "py_min_max xs =
           Inr (arg_min_list num_val ns, arg_min_list (\<lambda>x. - num_val x) ns)"
proof -
  from assms(1,2) have "ns \<noteq> []" by (cases xs) (auto split: option.splits)
  then obtain n ns' where ns: "ns = n # ns'" by (cases ns) auto
  have mn: "fold (\<lambda>y m. if num_lt y m then y else m) ns' n = arg_min_list num_val ns"
    unfolding ns using assms(3) by (intro fold_pick) (auto simp: ns num_lt_finite)
  have mx: "fold (\<lambda>y m. if num_lt m y then y else m) ns' n =
      arg_min_list (\<lambda>x. - num_val x) ns"
    unfolding ns using assms(3)
    by (intro fold_pick [where lt = "\<lambda>y m. num_lt m y"]) (auto simp: ns num_lt_finite)
  from assms(1) obtain x xs' where xs: "xs = x # xs'" by (cases xs) auto
  have "py_min_max xs =
      Inr (fold (\<lambda>y m. if num_lt y m then y else m) (tl ns) (hd ns),
           fold (\<lambda>y m. if num_lt m y then y else m) (tl ns) (hd ns))"
    unfolding py_min_max_def using assms(2) by (simp add: xs del: numbers.simps)
  then show ?thesis using mn mx by (simp add: ns)
qed

lemma x_values_nonempty:
  assumes "x_values self \<noteq> []"
  shows "\<exists>s \<in> set (flot_series self). data_points s \<noteq> []"
proof (rule ccontr)
  assume "\<not> ?thesis"
  then have "concat (map data_points (flot_series self)) = []" by simp
  with assms show False by (simp add: x_values_def x_nums_def)
qed

lemma slices_nonzero:
  assumes "s0 \<in> set ss" and "data_points s0 \<noteq> []"
  shows "Max (set (map (\<lambda>s. length (data_points s)) ss)) \<noteq> 0"
proof -
  have "length (data_points s0) \<in> set (map (\<lambda>s. length (data_points s)) ss)"
    using assms(1) by auto
  then have "length (data_points s0) \<le> Max (set (map (\<lambda>s. length (data_points s)) ss))"
    by (rule Max_ge [OF finite_set])
  moreover have "0 < length (data_points s0)" using assms(2) by simp
  ultimately show ?thesis by linarith
qed

lemma calculate_bar_width_spec:
  assumes wf: "\<forall>s \<in> set (flot_series self). sequence_data s"
    and ne: "x_values self \<noteq> []"
  shows "calculate_bar_width self = spec_bar_width self"
proof -
  let ?ss = "flot_series self"
  let ?lens = "map (\<lambda>s. length (data_points s)) ?ss"
  let ?first = "\<lambda>p. projr (getitem0 p)"
  let ?ps = "concat (map data_points ?ss)"
  from x_values_nonempty [OF ne] obtain s0 where s0: "s0 \<in> set ?ss" "data_points s0 \<noteq> []"
    by blast
  have 1: "py_map (\<lambda>s. and_then (getitem s ''data'') py_len) ?ss = Inr ?lens"
    by (rule py_map_Inr) (simp add: wf sequence_data_len)
  have "?lens \<noteq> []" using s0 by auto
  then have 2: "py_max_len ?lens = Inr (Max (set ?lens))" by (rule py_max_len_Max)
  have 4: "py_map (\<lambda>s. getitem s ''data'') ?ss = Inr (map (\<lambda>s. projr (getitem s ''data'')) ?ss)"
    by (rule py_map_Inr) (use wf sequence_data_getitem in blast)
  have "py_map (\<lambda>d. and_then (py_iter d) (py_map getitem0))
          (map (\<lambda>s. projr (getitem s ''data'')) ?ss) =
        py_map (\<lambda>s. and_then (py_iter (projr (getitem s ''data''))) (py_map getitem0)) ?ss"
    by (rule py_map_map [symmetric])
  also have "\<dots> = Inr (map (\<lambda>s. map ?first (data_points s)) ?ss)"
    by (rule py_map_Inr) (simp add: wf sequence_data_firsts)
  finally have 5: "py_map (\<lambda>d. and_then (py_iter d) (py_map getitem0))
          (map (\<lambda>s. projr (getitem s ''data'')) ?ss) =
        Inr (map (\<lambda>s. map ?first (data_points s)) ?ss)" .
  have 6: "concat (map (\<lambda>s. map ?first (data_points s)) ?ss) = map ?first ?ps"
    by (simp add: map_concat comp_def)
  have "list_all (\<lambda>p. x_num p \<noteq> None) ?ps"
    using wf sequence_data_points by (auto simp: list_all_iff)
  then have n: "numbers (map ?first ?ps) = Some (x_nums self)"
    unfolding x_nums_def by (rule numbers_firsts)
  have f: "\<forall>n \<in> set (x_nums self). is_finite n"
    unfolding x_nums_def using map_filter_finite by blast
  have "map ?first ?ps \<noteq> []" using s0 by auto
  from py_min_max_numbers [OF this n f]
  have 7: "py_min_max (map ?first ?ps) =
      Inr (arg_min_list num_val (x_nums self), arg_min_list (\<lambda>x. - num_val x) (x_nums self))" .
  show ?thesis
    unfolding calculate_bar_width_def 1 and_then_Inr 2 4 5 6 7 spec_bar_width_def
    by simp
qed

lemma x_extremes:
  assumes "x_values self \<noteq> []"
  shows "num_val (arg_min_list num_val (x_nums self)) = Min (set (x_values self))"
    and "num_val (arg_min_list (\<lambda>x. - num_val x) (x_nums self)) = Max (set (x_values self))"
proof -
  from assms have ne: "x_nums self \<noteq> []" by (simp add: x_values_def)
  show "num_val (arg_min_list num_val (x_nums self)) = Min (set (x_values self))"
    using f_arg_min_list_f [OF ne, of num_val] by (simp add: x_values_def)
  have "- num_val (arg_min_list (\<lambda>x. - num_val x) (x_nums self)) =
      Min ((\<lambda>x. - num_val x) ` set (x_nums self))"
    using f_arg_min_list_f [OF ne, of "\<lambda>x. - num_val x"] by simp
  also have "(\<lambda>x. - num_val x) ` set (x_nums self) = uminus ` set (x_values self)"
    by (auto simp: x_values_def)
  also have "Min (uminus ` set (x_values self)) = - Max (set (x_values self))"
    using assms by (intro minus_Max_eq_Min [symmetric]) auto
  finally show "num_val (arg_min_list (\<lambda>x. - num_val x) (x_nums self)) = Max (set (x_values self))"
    by simp
qed

lemma prepare_series_width:
  assumes "calculate_bar_width self = Inr w" and "bars_hint_ok s"
  shows "prepare_series self s = Inr (if truthy w then with_bar_width w s else s)"
  using assms
  by (auto simp: prepare_series_def with_bar_width_def bars_hint_ok_def
      split: option.splits pyval.splits)

lemma prepare_series_error:
  assumes "calculate_bar_width self = Inl e" and "map_of s ''bars'' \<noteq> None"
  shows "prepare_series self s = Inl e"
  using assms by (auto simp: prepare_series_def)

lemma prepare_series_no_bars:
  "map_of s ''bars'' = None \<Longrightarrow> prepare_series self s = Inr s"
  by (simp add: prepare_series_def)

lemma with_bar_width_data: "map_of (with_bar_width w s) ''data'' = map_of s ''data''"
  by (auto simp: with_bar_width_def map_of_setitem split: option.splits pyval.splits)

lemma with_bar_width_ok: "bars_hint_ok s \<Longrightarrow> bars_hint_ok (with_bar_width w s)"
  by (auto simp: with_bar_width_def bars_hint_ok_def map_of_setitem
      split: option.splits pyval.splits)

lemma prepare_from_width:
  assumes "calculate_bar_width self = Inr w"
    and "\<forall>s \<in> set (flot_series self). bars_hint_ok s"
    and "i + n = length (flot_series self)"
  shows "prepare_from self i n =
     (None, self\<lparr>flot_series := take i (flot_series self) @
        map (\<lambda>s. if truthy w then with_bar_width w s else s) (drop i (flot_series self))\<rparr>)"
  using assms
proof (induction n arbitrary: self i)
  case 0
  then show ?case by simp
next
  case (Suc n)
  let ?inj = "\<lambda>s. if truthy w then with_bar_width w s else s"
  let ?ss = "flot_series self"
  let ?self = "self\<lparr>flot_series := ?ss[i := ?inj (?ss ! i)]\<rparr>"
  from Suc.prems have i: "i < length ?ss" by simp
  with Suc.prems have ok: "bars_hint_ok (?ss ! i)" by simp
  have step: "prepare_series self (?ss ! i) = Inr (?inj (?ss ! i))"
    by (rule prepare_series_width [OF Suc.prems(1) ok])
  have "map_of (?inj (?ss ! i)) ''data'' = map_of (?ss ! i) ''data''"
    by (simp add: with_bar_width_data)
  then have "map (\<lambda>s. map_of s ''data'') (flot_series ?self) = map (\<lambda>s. map_of s ''data'') ?ss"
    by (simp add: map_data_update)
  then have c: "calculate_bar_width ?self = Inr w"
    using calculate_bar_width_data [of ?self self] Suc.prems(1) by simp
  have b: "\<forall>s \<in> set (flot_series ?self). bars_hint_ok s"
    using Suc.prems(2) ok by (auto simp: with_bar_width_ok dest!: set_update_subset_insert [THEN subsetD])
  have l: "Suc i + n = length (flot_series ?self)" using Suc.prems(3) by simp
  have "prepare_from self i (Suc n) = prepare_from ?self (Suc i) n"
    by (simp add: step)
  also have "\<dots> = (None, ?self\<lparr>flot_series := take (Suc i) (flot_series ?self) @
        map ?inj (drop (Suc i) (flot_series ?self))\<rparr>)"
    by (rule Suc.IH [OF c b l])
  also have "take (Suc i) (flot_series ?self) @ map ?inj (drop (Suc i) (flot_series ?self)) =
      take i ?ss @ map ?inj (drop i ?ss)"
    using i by (simp add: take_Suc_conv_app_nth Cons_nth_drop_Suc [symmetric])
  finally show ?case by simp
qed

lemma prepare_from_error:
  assumes "calculate_bar_width self = Inl e" and "i + n = length (flot_series self)"
  shows "prepare_from self i n =
     (if \<forall>s \<in> set (drop i (flot_series self)). map_of s ''bars'' = None then None else Some e,
      self)"
  using assms(2)
proof (induction n arbitrary: i)
  case 0
  then show ?case by simp
next
  case (Suc n)
  let ?ss = "flot_series self"
  from Suc.prems have i: "i < length ?ss" by simp
  then have d: "drop i ?ss = ?ss ! i # drop (Suc i) ?ss"
    by (simp add: Cons_nth_drop_Suc)
  show ?case
  proof (cases "map_of (?ss ! i) ''bars''")
    case None
    then have "prepare_series self (?ss ! i) = Inr (?ss ! i)"
      by (rule prepare_series_no_bars)
    moreover have "prepare_from self (Suc i) n =
        (if \<forall>s \<in> set (drop (Suc i) ?ss). map_of s ''bars'' = None then None else Some e, self)"
      using Suc.prems by (intro Suc.IH) simp
    ultimately show ?thesis using None by (simp add: d)
  next
    case (Some b)
    then have "prepare_series self (?ss ! i) = Inl e"
      by (intro prepare_series_error [OF assms(1)]) simp
    then show ?thesis using Some by (simp add: d)
  qed
qed

lemma series_property_spec:
  assumes "\<forall>s \<in> set (flot_series self). sequence_data s \<and> bars_hint_ok s"
    and "x_values self \<noteq> []"
  shows "fst (series_property self) =
           (if \<forall>s \<in> set (flot_series self). map_of s ''bars'' = None
            then Inr (flot_series self)
            else case spec_bar_width self of
                   Inl e \<Rightarrow> Inl e
                 | Inr w \<Rightarrow>
                     Inr (map (\<lambda>s. if truthy w then with_bar_width w s else s)
                            (flot_series self)))"
proof (cases "\<forall>s \<in> set (flot_series self). map_of s ''bars'' = None")
  case True
  then show ?thesis by (simp add: series_property_no_bars)
next
  case False
  have c: "calculate_bar_width self = spec_bar_width self"
    using assms by (intro calculate_bar_width_spec) auto
  show ?thesis
  proof (cases "spec_bar_width self")
    case (Inl e)
    with c have "calculate_bar_width self = Inl e" by simp
    from prepare_from_error [OF this, of 0 "length (flot_series self)"] False Inl
    show ?thesis by (auto simp: series_property_def)
  next
    case (Inr w)
    with c have cw: "calculate_bar_width self = Inr w" by simp
    have b: "\<forall>s \<in> set (flot_series self). bars_hint_ok s" using assms(1) by simp
    have "prepare_from self 0 (length (flot_series self)) =
       (None, self\<lparr>flot_series := take 0 (flot_series self) @
          map (\<lambda>s. if truthy w then with_bar_width w s else s)
            (drop 0 (flot_series self))\<rparr>)"
      by (rule prepare_from_width [OF cw b]) simp
    then have r: "fst (series_property self) =
        Inr (map (\<lambda>s. if truthy w then with_bar_width w s else s) (flot_series self))"
      by (simp add: series_property_def)
    show ?thesis by (subst if_not_P [OF False]) (simp add: Inr r)
  qed
qed




subsection \<open>The resolution of the options\<close>

text \<open>\<^verbatim>\<open>update\<close> on a dict returns a dict, so the construction fails only where
  \<^verbatim>\<open>update\<close> raises.\<close>

lemma update_returns_dict:
  "update (PDict dm) u = Inr r \<Longrightarrow> \<exists>dm'. r = PDict dm'"
proof (induction u arbitrary: dm)
  case Nil
  then show ?case by auto
next
  case (Cons kv u)
  obtain k v where kv: "kv = (k, v)" by (cases kv)
  from Cons.prems obtain x where "update (PDict (setitem dm k x)) u = Inr r"
    by (cases v) (auto simp: kv split: sum.splits)
  then show ?case by (rule Cons.IH)
qed

lemma apply_layers_returns_dict:
  "apply_layers (PDict d) layers = Inr r \<Longrightarrow> \<exists>d'. r = PDict d'"
proof (induction layers arbitrary: d)
  case Nil
  then show ?case by auto
next
  case (Cons layer layers)
  then obtain r' where u: "update (PDict d) layer = Inr r'" and a: "apply_layers r' layers = Inr r"
    by (auto split: sum.splits)
  from update_returns_dict [OF u] obtain d' where "r' = PDict d'" by blast
  with a Cons.IH show ?case by blast
qed

lemma flot_init_error:
  "flot_init layers = Inl e \<longleftrightarrow> apply_layers (PDict []) layers = Inl e"
proof (cases "apply_layers (PDict []) layers")
  case (Inl e')
  then show ?thesis by (simp add: flot_init_def)
next
  case (Inr r)
  with apply_layers_returns_dict [OF Inr] show ?thesis
    by (auto simp: flot_init_def)
qed

text \<open>The example of the specification: the code and the deep merge give the same options.\<close>

lemma flot_init_example:
  "flot_init [[(''grid'', PDict [(''show'', PBool True)])],
              [(''grid'', PDict [(''hoverable'', PBool True)]),
               (''xaxis'', PDict [(''mode'', PStr ''time'')])]] =
   Inr \<lparr>flot_series = [], flot_options =
     spec_resolve [[(''grid'', PDict [(''show'', PBool True)])],
                   [(''grid'', PDict [(''hoverable'', PBool True)]),
                    (''xaxis'', PDict [(''mode'', PStr ''time'')])]]\<rparr>"
  by (simp add: flot_init_def spec_resolve_def)

lemma spec_resolve_example:
  "spec_resolve [[(''grid'', PDict [(''show'', PBool True)])],
                 [(''grid'', PDict [(''hoverable'', PBool True)]),
                  (''xaxis'', PDict [(''mode'', PStr ''time'')])]] =
   [(''grid'', PDict [(''show'', PBool True), (''hoverable'', PBool True)]),
    (''xaxis'', PDict [(''mode'', PStr ''time'')])]"
  by (simp add: spec_resolve_def)

text \<open>
  Where no mapping meets a value that is not a mapping, \<^verbatim>\<open>update\<close> is the deep merge of
  the specification, and the options resolved at construction are its fold over the sources.
\<close>

lemma setitem_absent: "map_of d k = None \<Longrightarrow> setitem d k v = d @ [(k, v)]"
  by (induction d) (auto split: if_splits)

lemma spec_merge_fresh:
  "distinct (map fst u) \<Longrightarrow> fst ` set u \<inter> fst ` set acc = {} \<Longrightarrow> spec_merge acc u = acc @ u"
proof (induction u arbitrary: acc)
  case Nil
  then show ?case by simp
next
  case (Cons kv u)
  obtain k v where kv: "kv = (k, v)" by (cases kv)
  from Cons.prems kv have n: "map_of acc k = None"
    by (auto simp: map_of_eq_None_iff)
  have m: "(case v of PDict incoming \<Rightarrow>
               (case map_of acc k of Some (PDict existing) \<Rightarrow> PDict (spec_merge existing incoming)
                | _ \<Rightarrow> v) | _ \<Rightarrow> v) = v"
    by (simp add: n split: pyval.splits)
  have "spec_merge acc (kv # u) = spec_merge (acc @ [(k, v)]) u"
    unfolding kv spec_merge.simps m by (simp add: setitem_absent [OF n])
  also have "\<dots> = (acc @ [(k, v)]) @ u"
    using Cons.prems kv by (intro Cons.IH) auto
  finally show ?case by (simp add: kv)
qed

lemma no_clash_fresh:
  "distinct (map fst u) \<Longrightarrow> fst ` set u \<inter> fst ` set acc = {} \<Longrightarrow> no_clash acc u"
proof (induction u arbitrary: acc)
  case Nil
  then show ?case by simp
next
  case (Cons kv u)
  obtain k v where kv: "kv = (k, v)" by (cases kv)
  from Cons.prems kv have n: "map_of acc k = None"
    by (auto simp: map_of_eq_None_iff)
  have s: "spec_merge acc [(k, v)] = acc @ [(k, v)]"
    by (rule spec_merge_fresh) (use Cons.prems kv in auto)
  have "no_clash (acc @ [(k, v)]) u"
    using Cons.prems kv by (intro Cons.IH) auto
  then show ?case
    unfolding kv no_clash.simps s by (simp add: n split: pyval.splits)
qed

lemma spec_merge_step:
  "spec_merge acc ((k, v) # u) = spec_merge (spec_merge acc [(k, v)]) u"
  by simp

lemma update_refines:
  "wf_dict (PDict u) \<Longrightarrow> no_clash d u \<Longrightarrow> update (PDict d) u = Inr (PDict (spec_merge d u))"
proof (induction "size (PDict u)" arbitrary: d u rule: less_induct)
  case less
  show ?case
  proof (cases u)
    case Nil
    then show ?thesis by simp
  next
    case (Cons kv u')
    obtain k v where kv: "kv = (k, v)" by (cases kv)
    note u = Cons [unfolded kv]
    from less.prems(1) have wfu': "wf_dict (PDict u')" and wfv: "wf_dict v"
      by (auto simp: u)
    have su': "size (PDict u') < size (PDict u)" by (simp add: u)
    from less.prems(2) have nc': "no_clash (spec_merge d [(k, v)]) u'"
      by (simp add: u)
    have rest: "update (PDict (spec_merge d [(k, v)])) u' = Inr (PDict (spec_merge d u))"
      using less.hyps [OF su' wfu' nc'] by (simp add: u)
    show ?thesis
    proof (cases v)
      case (PDict vm)
      have svm: "size (PDict vm) < size (PDict u)" by (simp add: u PDict)
      from wfv PDict have wfvm: "wf_dict (PDict vm)" by simp
      show ?thesis
      proof (cases "map_of d k")
        case None
        from wfvm have "no_clash [] vm" by (intro no_clash_fresh) auto
        from less.hyps [OF svm wfvm this]
        have "update (PDict []) vm = Inr (PDict (spec_merge [] vm))" .
        moreover from wfvm have "spec_merge [] vm = [] @ vm" by (intro spec_merge_fresh) auto
        ultimately have "update (PDict []) vm = Inr (PDict vm)" by simp
        then show ?thesis
          using rest by (simp add: u PDict None)
      next
        case (Some e)
        show ?thesis
        proof (cases e)
          case (PDict em)
          note e = this
          from less.prems(2) have "no_clash em vm"
            by (simp add: u \<open>v = PDict vm\<close> Some e)
          from less.hyps [OF svm wfvm this]
          have "update (PDict em) vm = Inr (PDict (spec_merge em vm))" .
          then show ?thesis
            using rest by (simp add: u \<open>v = PDict vm\<close> Some e)
        qed (use less.prems(2) in \<open>simp_all add: u PDict Some\<close>)
      qed
    qed (use rest in \<open>simp_all add: u\<close>)
  qed
qed

lemma apply_layers_refines:
  "no_clash_layers acc layers \<Longrightarrow>
     apply_layers (PDict acc) layers = Inr (PDict (foldl spec_merge acc layers))"
proof (induction layers arbitrary: acc)
  case Nil
  then show ?case by simp
next
  case (Cons layer layers)
  then have "update (PDict acc) layer = Inr (PDict (spec_merge acc layer))"
    by (intro update_refines) simp_all
  with Cons show ?case by simp
qed

lemma flot_init_refines:
  assumes "no_clash_layers [] layers"
  shows "flot_init layers = Inr \<lparr>flot_series = [], flot_options = spec_resolve layers\<rparr>"
  by (simp add: flot_init_def spec_resolve_def apply_layers_refines [OF assms])

lemma no_clash_layers_example:
  "no_clash_layers [] [[(''grid'', PDict [(''show'', PBool True)])],
              [(''grid'', PDict [(''hoverable'', PBool True)]),
               (''xaxis'', PDict [(''mode'', PStr ''time'')])]]"
  by simp

text \<open>
  C2 fails on the code where a source gives a mapping for a key under which an earlier
  source gave a value that is not a mapping. The deep merge of the claim replaces the value;
  \<^verbatim>\<open>update\<close> calls itself on the old value, and the construction raises TypeError.
\<close>

theorem flot_init_mapping_over_scalar:
  "flot_init [[(''a'', PInt 1)], [(''a'', PDict [(''b'', PInt 2)])]] = Inl TypeError \<and>
   spec_resolve [[(''a'', PInt 1)], [(''a'', PDict [(''b'', PInt 2)])]] =
     [(''a'', PDict [(''b'', PInt 2)])]"
  by (simp add: flot_init_def spec_resolve_def)

text \<open>With an empty mapping as the incoming value the construction succeeds and keeps the
  old value.\<close>

lemma flot_init_empty_mapping_over_scalar:
  "flot_init [[(''a'', PInt 1)], [(''a'', PDict [])]] =
     Inr \<lparr>flot_series = [], flot_options = [(''a'', PInt 1)]\<rparr> \<and>
   spec_resolve [[(''a'', PInt 1)], [(''a'', PDict [])]] = [(''a'', PDict [])]"
  by (simp add: flot_init_def spec_resolve_def)

end
